theory Spec2Isabelle
  imports Main
begin

section \<open>JavaScript strings and arrays\<close>

text \<open>
  A JavaScript string is modelled as a \<open>string\<close> (a list of characters); the
  comparison \<open>a > b\<close> of two strings compares them code unit by code unit. The
  characters are eight bits wide, so the model is exact for ASCII text; a code unit
  beyond it is not told apart from the bytes that encode it.
\<close>

fun js_lt :: "string \<Rightarrow> string \<Rightarrow> bool" where
  "js_lt [] [] = False"
| "js_lt [] (y # ys) = True"
| "js_lt (x # xs) [] = False"
| "js_lt (x # xs) (y # ys) =
     (if (of_char x :: nat) < of_char y then True
      else if (of_char y :: nat) < of_char x then False
      else js_lt xs ys)"

definition js_gt :: "string \<Rightarrow> string \<Rightarrow> bool" where
  "js_gt a b = js_lt b a"

text \<open>\<open>s.split(c)\<close> for a separator of one character: the empty string gives one empty piece.\<close>

fun split_on :: "char \<Rightarrow> string \<Rightarrow> string list" where
  "split_on c [] = [[]]"
| "split_on c (x # xs) =
     (if x = c then [] # split_on c xs
      else (case split_on c xs of
              [] \<Rightarrow> [[x]]
            | s # ss \<Rightarrow> (x # s) # ss))"

text \<open>\<open>xs.join(sep)\<close>.\<close>

fun join :: "string \<Rightarrow> string list \<Rightarrow> string" where
  "join sep [] = []"
| "join sep [x] = x"
| "join sep (x # y # ys) = x @ sep @ join sep (y # ys)"

subsection \<open>Array.prototype.sort\<close>

text \<open>
  \<open>Array.prototype.sort\<close> belongs to the JavaScript engine. The comparison function the
  program passes is not a consistent one (it answers \<open>-1\<close> for \<open>cjs\<close> against itself),
  so the language leaves the resulting order to the engine. The model follows Node's
  engine (V8 since version 7.0): for an array of fewer than 64 elements it finds the run
  at the start of the array (reversing it when it descends) and then inserts every later
  element by a binary search, calling the comparison function with the element to insert
  as its first argument.
\<close>

function binarySearch ::
  "('a \<Rightarrow> 'a \<Rightarrow> int) \<Rightarrow> 'a \<Rightarrow> 'a list \<Rightarrow> nat \<Rightarrow> nat \<Rightarrow> nat" where
  "binarySearch comparefn pivot work left right =
     (if left < right then
        (let mid = left + (right - left) div 2 in
         if comparefn pivot (work ! mid) < 0
         then binarySearch comparefn pivot work left mid
         else binarySearch comparefn pivot work (mid + 1) right)
      else left)"
  by pat_completeness auto
termination
  by (relation "measure (\<lambda>(comparefn, pivot, work, left, right). right - left)") auto

declare binarySearch.simps [simp del]

definition insertPivot :: "('a \<Rightarrow> 'a \<Rightarrow> int) \<Rightarrow> 'a list \<Rightarrow> 'a \<Rightarrow> 'a list" where
  "insertPivot comparefn work pivot =
     (let left = binarySearch comparefn pivot work 0 (length work)
      in take left work @ pivot # drop left work)"

fun extendRun :: "('a \<Rightarrow> 'a \<Rightarrow> int) \<Rightarrow> bool \<Rightarrow> 'a \<Rightarrow> 'a list \<Rightarrow> nat" where
  "extendRun comparefn descending previous [] = 0"
| "extendRun comparefn descending previous (current # rest) =
     (let order = comparefn current previous in
      if (if descending then 0 \<le> order else order < 0) then 0
      else Suc (extendRun comparefn descending current rest))"

definition countAndMakeRun :: "('a \<Rightarrow> 'a \<Rightarrow> int) \<Rightarrow> 'a list \<Rightarrow> 'a list \<times> 'a list" where
  "countAndMakeRun comparefn xs =
     (case xs of
        elementHigh # elementLow # rest \<Rightarrow>
          (let descending = comparefn elementLow elementHigh < 0;
               runLength = 2 + extendRun comparefn descending elementLow rest;
               run = take runLength xs
           in (if descending then rev run else run, drop runLength xs))
      | _ \<Rightarrow> (xs, []))"

definition js_sort :: "('a \<Rightarrow> 'a \<Rightarrow> int) \<Rightarrow> 'a list \<Rightarrow> 'a list" where
  "js_sort comparefn xs =
     (if length xs < 2 then xs
      else (case countAndMakeRun comparefn xs of
              (run, later) \<Rightarrow> foldl (insertPivot comparefn) run later))"

section \<open>The order of the formats\<close>

text \<open>The comparison function of \<open>formats.sort\<close>:
  \<open>(a, b) => (a === 'cjs' ? -1 : a > b ? 1 : 0)\<close>.\<close>

definition compareFormats :: "string \<Rightarrow> string \<Rightarrow> int" where
  "compareFormats a b = (if a = ''cjs'' then - 1 else if js_gt a b then 1 else 0)"

definition sortFormats :: "string \<Rightarrow> string list" where
  "sortFormats s = js_sort compareFormats (split_on CHR '','' s)"

section \<open>Node's path module (POSIX)\<close>

text \<open>
  \<open>path.resolve\<close>, \<open>path.dirname\<close> and \<open>path.basename\<close> are Node's; the model follows
  their POSIX implementation. \<open>normalizeString\<close> walks the segments between slashes: an
  empty segment and \<open>.\<close> are skipped, \<open>..\<close> removes the segment before it (or is kept,
  above the root of a relative path), every other segment is appended.
\<close>

definition isAbsolute :: "string \<Rightarrow> bool" where
  "isAbsolute path = (case path of [] \<Rightarrow> False | c # _ \<Rightarrow> c = CHR ''/'')"

definition normalizeSegment :: "bool \<Rightarrow> string list \<Rightarrow> string \<Rightarrow> string list" where
  "normalizeSegment allowAboveRoot res seg =
     (if seg = [] then res
      else if seg = ''.'' then res
      else if seg = ''..'' then
        (if res = [] then (if allowAboveRoot then [''..''] else [])
         else if last res = ''..'' then (if allowAboveRoot then res @ [''..''] else res)
         else butlast res)
      else res @ [seg])"

definition normalizeString :: "bool \<Rightarrow> string \<Rightarrow> string" where
  "normalizeString allowAboveRoot path =
     join ''/'' (foldl (normalizeSegment allowAboveRoot) [] (split_on CHR ''/'' path))"

text \<open>The loop of \<open>resolve\<close> over its arguments from the right, the process's working
  directory last; the second component says whether an absolute path was met.\<close>

fun resolveArgs :: "string \<Rightarrow> string list \<Rightarrow> string \<Rightarrow> string \<times> bool" where
  "resolveArgs processCwd [] resolvedPath =
     (if processCwd = [] then (resolvedPath, False)
      else (processCwd @ ''/'' @ resolvedPath, isAbsolute processCwd))"
| "resolveArgs processCwd (path # earlier) resolvedPath =
     (if path = [] then resolveArgs processCwd earlier resolvedPath
      else if isAbsolute path then (path @ ''/'' @ resolvedPath, True)
      else resolveArgs processCwd earlier (path @ ''/'' @ resolvedPath))"

definition resolve :: "string \<Rightarrow> string list \<Rightarrow> string" where
  "resolve processCwd args =
     (case resolveArgs processCwd (rev args) [] of
        (resolvedPath, resolvedAbsolute) \<Rightarrow>
          (let normalized = normalizeString (\<not> resolvedAbsolute) resolvedPath in
           if resolvedAbsolute then CHR ''/'' # normalized
           else if normalized = [] then ''.'' else normalized))"

definition dirname :: "string \<Rightarrow> string" where
  "dirname path =
     (if path = [] then ''.''
      else
        (let hasRoot = isAbsolute path;
             afterName = dropWhile (\<lambda>c. c \<noteq> CHR ''/'')
                           (dropWhile (\<lambda>c. c = CHR ''/'') (rev (tl path)));
             endIdx = length afterName
         in if afterName = [] then (if hasRoot then ''/'' else ''.'')
            else if hasRoot \<and> endIdx = 1 then ''//''
            else take endIdx path))"

definition basename :: "string \<Rightarrow> string" where
  "basename path =
     rev (takeWhile (\<lambda>c. c \<noteq> CHR ''/'') (dropWhile (\<lambda>c. c = CHR ''/'') (rev path)))"

section \<open>The regular expressions of the file names\<close>

definition endsWith :: "string \<Rightarrow> string \<Rightarrow> bool" where
  "endsWith s suffix = (length suffix \<le> length s \<and> drop (length s - length suffix) s = suffix)"

definition startsWith :: "string \<Rightarrow> string \<Rightarrow> bool" where
  "startsWith s pre = (take (length pre) s = pre)"

text \<open>The string without the first of the given suffixes it ends with, if any.\<close>

fun stripSuffixOf :: "string list \<Rightarrow> string \<Rightarrow> string option" where
  "stripSuffixOf [] s = None"
| "stripSuffixOf (suffix # others) s =
     (if endsWith s suffix then Some (take (length s - length suffix) s)
      else stripSuffixOf others s)"

text \<open>The alternatives of \<open>\.(mjs|[tj]sx?)$\<close> and of \<open>(\.(umd|cjs|es|m))?\<close>.\<close>

definition sourceExtensions :: "string list" where
  "sourceExtensions = [''.mjs'', ''.tsx'', ''.jsx'', ''.ts'', ''.js'']"

definition formatInfixes :: "string list" where
  "formatInfixes = [''.umd'', ''.cjs'', ''.es'', ''.m'']"

text \<open>\<open>s.replace(/(\.(umd|cjs|es|m))?\.(mjs|[tj]sx?)$/, '')\<close>: the match is the
  leftmost one, so the format infix goes with the extension when it is there.\<close>

definition stripMainExtension :: "string \<Rightarrow> string" where
  "stripMainExtension s =
     (case stripSuffixOf sourceExtensions s of
        None \<Rightarrow> s
      | Some t \<Rightarrow> (case stripSuffixOf formatInfixes t of None \<Rightarrow> t | Some u \<Rightarrow> u))"

text \<open>\<open>entry.match(/([\\/])index(\.(umd|cjs|es|m))?\.(mjs|[tj]sx?)$/)\<close>, as a truth value.\<close>

definition endsWithIndex :: "string \<Rightarrow> bool" where
  "endsWithIndex s = (endsWith s ''/index'' \<or> endsWith s (CHR 0x5C # ''index''))"

definition isIndexEntry :: "string \<Rightarrow> bool" where
  "isIndexEntry entry =
     (case stripSuffixOf sourceExtensions entry of
        None \<Rightarrow> False
      | Some t \<Rightarrow>
          (if endsWithIndex t then True
           else (case stripSuffixOf formatInfixes t of
                   None \<Rightarrow> False
                 | Some u \<Rightarrow> endsWithIndex u)))"

text \<open>\<open>s.match(/src\//)\<close>, as a truth value.\<close>

fun containsSrcDir :: "string \<Rightarrow> bool" where
  "containsSrcDir [] = False"
| "containsSrcDir (c # cs) = (if startsWith (c # cs) ''src/'' then True else containsSrcDir cs)"

text \<open>\<open>s.replace(/^[^.]+/, '')\<close>.\<close>

definition dropUntilDot :: "string \<Rightarrow> string" where
  "dropUntilDot s = dropWhile (\<lambda>c. c \<noteq> CHR ''.'') s"



section \<open>The manifest and the options\<close>

text \<open>What a call throws: a TypeError, a SyntaxError, or some other error.\<close>

datatype js_error = TypeError | SyntaxError | Error

text \<open>A value read by \<open>JSON.parse\<close>: an object is the list of its keys and values in
  the order of the text, a key listed again replacing the one before. Of a number only
  whether it is zero is ever read here, so numbers are kept as integers.\<close>

datatype json =
  JNull
| JBool bool
| JNumber int
| JString string
| JArray "json list"
| JObject "(string \<times> json) list"

fun truthy :: "json \<Rightarrow> bool" where
  "truthy JNull = False"
| "truthy (JBool b) = b"
| "truthy (JNumber n) = (if n = 0 then False else True)"
| "truthy (JString s) = (if s = [] then False else True)"
| "truthy (JArray xs) = True"
| "truthy (JObject kvs) = True"

text \<open>The fields of package.json that \<open>createConfig\<close> reads. The names of the main
  files are strings where the manifest has them; \<open>dependencies\<close> and
  \<open>peerDependencies\<close> are given by their keys, in the order of \<open>Object.keys\<close>;
  \<open>pkg_syntax_esmodules\<close> is \<open>pkg.syntax && pkg.syntax.esmodules\<close>; \<open>minify\<close> and
  \<open>mangle\<close> are the values of the file, whatever they are.\<close>

record manifest =
  pkg_module :: "string option"
  pkg_jsnext_main :: "string option"
  pkg_syntax_esmodules :: "string option"
  pkg_esmodule :: "string option"
  pkg_cjs_main :: "string option"
  pkg_umd_main :: "string option"
  pkg_dependencies :: "string list option"
  pkg_peerDependencies :: "string list option"
  pkg_minify :: "json option"
  pkg_mangle :: "json option"

text \<open>The options as \<open>createConfig\<close> receives them: \<open>cwd\<close>, \<open>output\<close> (here \<open>opt_output\<close>) and \<open>entries\<close> are
  resolved already, \<open>compress\<close> stands for \<open>options.compress !== false\<close>, and \<open>alias\<close>,
  \<open>globals\<close> and \<open>define\<close> (here with the prefix \<open>opt_\<close>) are the texts of the command
  line.\<close>

record options =
  cwd :: string
  entries :: "string list"
  opt_output :: string
  format :: "string option"
  formats :: "string option"
  external :: "string option"
  opt_alias :: "string option"
  opt_globals :: "string option"
  opt_define :: "string option"
  name :: string
  compress :: bool
  pkg :: manifest
  multipleEntries :: bool

text \<open>\<open>a || d\<close> for an optional string \<open>a\<close>: the empty string is falsy.\<close>

definition js_or :: "string option \<Rightarrow> string \<Rightarrow> string" where
  "js_or a d = (case a of None \<Rightarrow> d | Some s \<Rightarrow> if s = [] then d else s)"

text \<open>\<open>Object.keys(x || {})\<close>.\<close>

definition keysOrEmpty :: "string list option \<Rightarrow> string list" where
  "keysOrEmpty x = (case x of None \<Rightarrow> [] | Some ks \<Rightarrow> ks)"

section \<open>The name cache and the options of the minifier\<close>

text \<open>
  The variable \<open>nameCache\<close> of \<open>createConfig\<close> holds the object literal it starts with
  (\<open>BareNameCache\<close>, the object also kept as \<open>bareNameCache\<close>) or a value.
\<close>

datatype name_cache = BareNameCache | CacheValue json

fun truthyCache :: "name_cache \<Rightarrow> bool" where
  "truthyCache BareNameCache = True"
| "truthyCache (CacheValue j) = truthy j"

fun cacheContents :: "name_cache \<Rightarrow> json" where
  "cacheContents BareNameCache = JObject []"
| "cacheContents (CacheValue j) = j"

text \<open>
  The variable \<open>minifyOptions\<close>: a value taken as it is, or
  \<open>Object.assign({}, a, b)\<close>, kept as the two objects it is assigned from (nothing in
  \<open>createConfig\<close> reads the new object; it only passes it on).
\<close>

datatype minify_options = Given json | Assigned json json

text \<open>
  \<open>normalizeMinifyOptions\<close> changes the object it is given in place. That object is the
  manifest's own \<open>minify\<close> or \<open>mangle\<close> object, or shares its nested objects with it and
  with the \<open>minify\<close> object of the loaded cache. So a call is given by the argument and by
  the two objects it may reach (where there are such), and it leaves all three as they are
  after it.
\<close>

record minify_objects =
  mo_argument :: minify_options
  mo_manifest :: "json option"
  mo_cache :: "json option"

text \<open>What the plugins of a step are made from (lines 340 to 487): the options, as they
  are once \<open>normalizeMinifyOptions\<close> has run, the entry, the format, \<open>writeMeta\<close>, the
  parsed aliases and definitions, the options of the minifier and the name cache.\<close>

record plugin_call =
  pc_options :: options
  pc_entry :: string
  pc_format :: string
  pc_writeMeta :: bool
  pc_aliases :: "(string \<times> string) list"
  pc_defines :: "(string \<times> string) list"
  pc_minifyOptions :: minify_options
  pc_nameCache :: name_cache

section \<open>The host\<close>

text \<open>
  What the program takes from outside \<open>createConfig\<close>. From Node and the JavaScript
  engine: the working directory of the process, the file system as \<open>fs.readFileSync\<close> sees
  it (\<open>None\<close> where it throws), \<open>JSON.parse\<close> (\<open>None\<close> where it throws) and the engine's
  \<open>RegExp\<close> constructor (\<open>None\<close> where it throws a SyntaxError), consulted for the
  patterns the model does not interpret itself. From modules that are not among the
  sources, each of which may throw: \<open>parseAliasArgument\<close>; \<open>parseMappingArgument\<close>, told
  whether it is called with \<open>toReplacementExpression\<close>; \<open>normalizeMinifyOptions\<close>; and
  \<open>pluginFactories\<close>, which stands for the calls that make the plugins of a step (the
  factories of the bundler's plugins, \<open>shouldCssModules\<close>, \<open>cssModulesConfig\<close>,
  \<open>isTruthy\<close>, \<open>require\<close>), \<open>None\<close> when none of them throws.
\<close>

record host =
  process_cwd :: string
  readFileSync :: "string \<Rightarrow> string option"
  JSON_parse :: "string \<Rightarrow> json option"
  RegExp_engine :: "string \<Rightarrow> (string \<Rightarrow> bool) option"
  parseAliasArgument :: "string \<Rightarrow> js_error + (string \<times> string) list"
  parseMappingArgument :: "bool \<Rightarrow> string \<Rightarrow> js_error + (string \<times> string) list"
  normalizeMinifyOptions :: "minify_objects \<Rightarrow> js_error + minify_objects"
  pluginFactories :: "plugin_call \<Rightarrow> js_error option"

section \<open>The arguments that are parsed\<close>

text \<open>Line 219: \<open>options.alias ? parseAliasArgument(options.alias) : []\<close>.\<close>

definition moduleAliases :: "host \<Rightarrow> options \<Rightarrow> js_error + (string \<times> string) list" where
  "moduleAliases h opts =
     (case opt_alias opts of
        None \<Rightarrow> Inr []
      | Some a \<Rightarrow> if a = [] then Inr [] else parseAliasArgument h a)"

text \<open>Lines 239 to 241: the mapping of \<open>options.globals\<close>, parsed when the option is
  given and is not \<open>none\<close>.\<close>

definition parsedGlobals :: "host \<Rightarrow> options \<Rightarrow> js_error + (string \<times> string) list" where
  "parsedGlobals h opts =
     (case opt_globals opts of
        None \<Rightarrow> Inr []
      | Some g \<Rightarrow> if g = [] then Inr [] else if g = ''none'' then Inr []
                  else parseMappingArgument h False g)"

text \<open>Lines 243 to 249: the mapping of \<open>options.define\<close>.\<close>

definition parsedDefines :: "host \<Rightarrow> options \<Rightarrow> js_error + (string \<times> string) list" where
  "parsedDefines h opts =
     (case opt_define opts of
        None \<Rightarrow> Inr []
      | Some d \<Rightarrow> if d = [] then Inr [] else parseMappingArgument h True d)"

section \<open>The external modules\<close>

text \<open>The array \<open>external\<close> of \<open>createConfig\<close> (lines 209 to 230).\<close>

definition externalNames :: "options \<Rightarrow> string \<Rightarrow> string list" where
  "externalNames opts entry =
     (let initial = [''dns'', ''fs'', ''path'', ''url''] @ filter (\<lambda>e. e \<noteq> entry) (entries opts);
          peerDeps = keysOrEmpty (pkg_peerDependencies (pkg opts));
          deps = keysOrEmpty (pkg_dependencies (pkg opts))
      in case external opts of
           None \<Rightarrow> initial @ peerDeps @ deps
         | Some ext \<Rightarrow>
             if ext = ''none'' then initial
             else if ext = [] then initial @ peerDeps @ deps
             else initial @ peerDeps @ split_on CHR '','' ext)"

text \<open>
  \<open>new RegExp(`^(${external.join('|')})($|/)`)\<close>: the names go into the pattern as
  they are. Where no name holds a syntax character of the pattern language other than
  the dot, the pattern is an alternation of plain sequences: a name matches at the start
  of the specifier character by character, its dots matching any character but a line
  terminator, and the match must end at the end of the specifier or before a slash.
  For any other list of names the engine's constructor is consulted.
\<close>

definition syntaxCharacters :: string where
  "syntaxCharacters = ''^$'' @ [CHR 0x5C] @ ''.*+?()[]{}|''"

definition lineTerminator :: "char \<Rightarrow> bool" where
  "lineTerminator c = (c = CHR 0x0A \<or> c = CHR 0x0D)"

definition plainCharacter :: "char \<Rightarrow> bool" where
  "plainCharacter c = (if c = CHR ''.'' then True else c \<notin> set syntaxCharacters)"

definition plainName :: "string \<Rightarrow> bool" where
  "plainName n = list_all plainCharacter n"

fun matchName :: "string \<Rightarrow> string \<Rightarrow> string option" where
  "matchName [] s = Some s"
| "matchName (p # ps) [] = None"
| "matchName (p # ps) (c # cs) =
     (if p = CHR ''.'' then (if lineTerminator c then None else matchName ps cs)
      else if p = c then matchName ps cs
      else None)"

definition atBoundary :: "string \<Rightarrow> bool" where
  "atBoundary rest = (case rest of [] \<Rightarrow> True | c # _ \<Rightarrow> c = CHR ''/'')"

text \<open>Whether the alternative of one plain name accepts the specifier.\<close>

definition acceptsName :: "string \<Rightarrow> string \<Rightarrow> bool" where
  "acceptsName n ident = (case matchName n ident of None \<Rightarrow> False | Some rest \<Rightarrow> atBoundary rest)"

definition testNames :: "string list \<Rightarrow> string \<Rightarrow> bool" where
  "testNames names ident = list_ex (\<lambda>n. acceptsName n ident) names"

definition patternSource :: "string list \<Rightarrow> string" where
  "patternSource names = ''^('' @ join ''|'' names @ '')($|/)''"

definition newExternalPredicate :: "host \<Rightarrow> string list \<Rightarrow> js_error + (string \<Rightarrow> bool)" where
  "newExternalPredicate h names =
     (if list_all plainName names then Inr (testNames names)
      else (case RegExp_engine h (patternSource names) of
              None \<Rightarrow> Inl SyntaxError
            | Some test \<Rightarrow> Inr test))"

text \<open>\<open>externalTest\<close> (lines 300 and 301) and the function \<open>inputOptions.external\<close>
  (lines 328 to 336).\<close>

definition externalTest :: "string list \<Rightarrow> (string \<Rightarrow> bool) \<Rightarrow> string \<Rightarrow> bool" where
  "externalTest names externalPredicate ident =
     (if length names = 0 then False else externalPredicate ident)"

definition inputExternal :: "options \<Rightarrow> (string \<Rightarrow> bool) \<Rightarrow> string \<Rightarrow> bool" where
  "inputExternal opts test ident =
     (if ident = ''babel-plugin-transform-async-to-promises/helpers'' then False
      else if multipleEntries opts \<and> ident = ''.'' then True
      else test ident)"

text \<open>\<open>getExternals\<close> of the single-bundle path: an array of names given to the bundler.\<close>

definition getExternals ::
  "string option \<Rightarrow> string list option \<Rightarrow> string list option \<Rightarrow> string list" where
  "getExternals ext dependencies peerDependencies =
     (if ext = Some ''none'' then []
      else
        (let peerDeps = keysOrEmpty peerDependencies in
         case ext of
           None \<Rightarrow> [''dns'', ''fs'', ''path'', ''url''] @ peerDeps @ keysOrEmpty dependencies
         | Some e \<Rightarrow>
             if e = [] then [''dns'', ''fs'', ''path'', ''url''] @ peerDeps @ keysOrEmpty dependencies
             else [''dns'', ''fs'', ''path'', ''url''] @ peerDeps @ split_on CHR '','' e))"

section \<open>The output files\<close>

definition mainNoExtension :: "host \<Rightarrow> options \<Rightarrow> string \<Rightarrow> string" where
  "mainNoExtension h opts entry =
     stripMainExtension
       (if multipleEntries opts
        then resolve (process_cwd h)
               [dirname (opt_output opts),
                basename (if isIndexEntry entry then opt_output opts else entry)]
        else opt_output opts)"

text \<open>\<open>replaceName\<close> (lines 251 to 256): the name takes the place of everything before
  the first dot of the file name it is given, in the directory of that file name.\<close>

definition templateSuffix :: "string \<Rightarrow> string" where
  "templateSuffix filename = dropUntilDot (basename filename)"

definition replaceName :: "host \<Rightarrow> string \<Rightarrow> string \<Rightarrow> string" where
  "replaceName h filename nm =
     resolve (process_cwd h) [dirname filename, nm @ templateSuffix filename]"

text \<open>The file names \<open>replaceName\<close> is given for the four files: the manifest's field,
  or the default.\<close>

definition moduleTemplate :: "manifest \<Rightarrow> string" where
  "moduleTemplate p =
     (case pkg_module p of
        None \<Rightarrow> js_or (pkg_jsnext_main p) ''x.esm.js''
      | Some m \<Rightarrow>
          if m = [] then js_or (pkg_jsnext_main p) ''x.esm.js''
          else if containsSrcDir m then js_or (pkg_jsnext_main p) ''x.esm.js''
          else m)"

definition modernTemplate :: "manifest \<Rightarrow> string" where
  "modernTemplate p = js_or (pkg_syntax_esmodules p) (js_or (pkg_esmodule p) ''x.modern.js'')"

definition cjsTemplate :: "manifest \<Rightarrow> string" where
  "cjsTemplate p = js_or (pkg_cjs_main p) ''x.js''"

definition umdTemplate :: "manifest \<Rightarrow> string" where
  "umdTemplate p = js_or (pkg_umd_main p) ''x.umd.js''"

definition moduleMain :: "host \<Rightarrow> options \<Rightarrow> string \<Rightarrow> string" where
  "moduleMain h opts entry = replaceName h (moduleTemplate (pkg opts)) (mainNoExtension h opts entry)"

definition modernMain :: "host \<Rightarrow> options \<Rightarrow> string \<Rightarrow> string" where
  "modernMain h opts entry = replaceName h (modernTemplate (pkg opts)) (mainNoExtension h opts entry)"

definition cjsMain :: "host \<Rightarrow> options \<Rightarrow> string \<Rightarrow> string" where
  "cjsMain h opts entry = replaceName h (cjsTemplate (pkg opts)) (mainNoExtension h opts entry)"

definition umdMain :: "host \<Rightarrow> options \<Rightarrow> string \<Rightarrow> string" where
  "umdMain h opts entry = replaceName h (umdTemplate (pkg opts)) (mainNoExtension h opts entry)"

text \<open>
  The keys every object literal inherits from \<open>Object.prototype\<close>: a lookup by one of
  them finds a function (an object, for \<open>__proto__\<close>) where no property of the object's
  own has the name.
\<close>

definition objectPrototypeKeys :: "string list" where
  "objectPrototypeKeys =
     [''constructor'', ''__defineGetter__'', ''__defineSetter__'', ''hasOwnProperty'',
      ''__lookupGetter__'', ''__lookupSetter__'', ''isPrototypeOf'', ''propertyIsEnumerable'',
      ''toString'', ''valueOf'', ''__proto__'', ''toLocaleString'']"

text \<open>
  \<open>resolve(options.cwd, { modern: modernMain, es: moduleMain, umd: umdMain }[format] || cjsMain)\<close>.
  For an inherited key the value found is not a string and \<open>resolve\<close> throws a
  TypeError.
\<close>

definition outputFile :: "host \<Rightarrow> options \<Rightarrow> string \<Rightarrow> string \<Rightarrow> js_error + string" where
  "outputFile h opts entry fmt =
     (if fmt = ''modern'' then Inr (resolve (process_cwd h) [cwd opts, modernMain h opts entry])
      else if fmt = ''es'' then Inr (resolve (process_cwd h) [cwd opts, moduleMain h opts entry])
      else if fmt = ''umd'' then Inr (resolve (process_cwd h) [cwd opts, umdMain h opts entry])
      else if fmt \<in> set objectPrototypeKeys then Inl TypeError
      else Inr (resolve (process_cwd h) [cwd opts, cjsMain h opts entry]))"



section \<open>Loading the name cache\<close>

text \<open>\<open>options.pkg.minify || options.pkg.mangle || {}\<close> (line 290).\<close>

definition mangleOrEmpty :: "manifest \<Rightarrow> json" where
  "mangleOrEmpty p =
     (case pkg_mangle p of
        None \<Rightarrow> JObject []
      | Some v \<Rightarrow> if truthy v then v else JObject [])"

definition rawMinifyValue :: "manifest \<Rightarrow> json" where
  "rawMinifyValue p =
     (case pkg_minify p of
        None \<Rightarrow> mangleOrEmpty p
      | Some v \<Rightarrow> if truthy v then v else mangleOrEmpty p)"

text \<open>Which object that value is: the manifest's \<open>minify\<close>, its \<open>mangle\<close>, or the new
  object of the literal.\<close>

datatype minify_source = FromMinify | FromMangle | FromLiteral

definition truthyField :: "json option \<Rightarrow> bool" where
  "truthyField x = (case x of None \<Rightarrow> False | Some v \<Rightarrow> truthy v)"

definition minifySource :: "manifest \<Rightarrow> minify_source" where
  "minifySource p =
     (if truthyField (pkg_minify p) then FromMinify
      else if truthyField (pkg_mangle p) then FromMangle
      else FromLiteral)"

text \<open>Line 291: \<open>typeof rawMinifyValue === 'string' ? {} : rawMinifyValue\<close>, and the
  object of the manifest that value is, if it is one.\<close>

definition ownMinifyOptions :: "manifest \<Rightarrow> json" where
  "ownMinifyOptions p = (case rawMinifyValue p of JString f \<Rightarrow> JObject [] | v \<Rightarrow> v)"

definition manifestObject :: "manifest \<Rightarrow> json option" where
  "manifestObject p =
     (case rawMinifyValue p of
        JString f \<Rightarrow> None
      | v \<Rightarrow> if minifySource p = FromLiteral then None else Some v)"

text \<open>\<open>getNameCachePath\<close> (lines 292 to 295).\<close>

definition getNameCachePath :: "host \<Rightarrow> options \<Rightarrow> string" where
  "getNameCachePath h opts =
     (case rawMinifyValue (pkg opts) of
        JString f \<Rightarrow> resolve (process_cwd h) [cwd opts, f]
      | v \<Rightarrow> resolve (process_cwd h) [cwd opts, ''mangle.json''])"

text \<open>
  \<open>loadNameCache\<close> (lines 303 to 315): the assignment
  \<open>nameCache = JSON.parse(fs.readFileSync(...))\<close> stands in a \<open>try\<close> whose \<open>catch\<close> is
  empty, so a file that cannot be read or parsed leaves the variable as it was. Reading
  \<open>nameCache.minify\<close> afterwards throws for \<open>null\<close>, after the assignment; that is
  caught as well.
\<close>

definition loadNameCache :: "host \<Rightarrow> string \<Rightarrow> name_cache \<Rightarrow> name_cache" where
  "loadNameCache h cachePath nameCache =
     (case readFileSync h cachePath of
        None \<Rightarrow> nameCache
      | Some contents \<Rightarrow>
          (case JSON_parse h contents of
             None \<Rightarrow> nameCache
           | Some parsed \<Rightarrow> CacheValue parsed))"

text \<open>\<open>nameCache.minify\<close> where line 307 finds it truthy: the value of the key \<open>minify\<close>
  of a loaded object.\<close>

fun cacheMinify :: "name_cache \<Rightarrow> json option" where
  "cacheMinify BareNameCache = None"
| "cacheMinify (CacheValue (JObject kvs)) =
     (case map_of (rev kvs) ''minify'' of
        None \<Rightarrow> None
      | Some v \<Rightarrow> if truthy v then Some v else None)"
| "cacheMinify (CacheValue j) = None"

text \<open>The call of line 318, after the first \<open>loadNameCache\<close> of line 316: the argument
  is the manifest's value, or the object assigned from it and from the \<open>minify\<close> object of
  the cache (lines 308 to 312).\<close>

definition minifyArgument :: "host \<Rightarrow> options \<Rightarrow> minify_objects" where
  "minifyArgument h opts =
     (let own = ownMinifyOptions (pkg opts);
          shared = cacheMinify (loadNameCache h (getNameCachePath h opts) BareNameCache)
      in \<lparr> mo_argument = (case shared of None \<Rightarrow> Given own | Some v \<Rightarrow> Assigned own v),
           mo_manifest = manifestObject (pkg opts),
           mo_cache = shared \<rparr>)"

text \<open>The loaded object with a new value under its key \<open>minify\<close>.\<close>

fun withMinify :: "json \<Rightarrow> json \<Rightarrow> json" where
  "withMinify v (JObject kvs) = JObject (map (\<lambda>(k, x). if k = ''minify'' then (k, v) else (k, x)) kvs)"
| "withMinify v j = j"

text \<open>
  The variable \<open>nameCache\<close> after line 320
  (\<open>if (nameCache === bareNameCache) nameCache = null\<close>): \<open>null\<close> when nothing was
  loaded; else the loaded value, its \<open>minify\<close> object as \<open>normalizeMinifyOptions\<close> left
  it where the options were assigned from it.
\<close>

definition nameCacheAfter :: "host \<Rightarrow> options \<Rightarrow> minify_objects \<Rightarrow> name_cache" where
  "nameCacheAfter h opts objs =
     (case loadNameCache h (getNameCachePath h opts) BareNameCache of
        BareNameCache \<Rightarrow> CacheValue JNull
      | CacheValue j \<Rightarrow>
          (case cacheMinify (CacheValue j) of
             None \<Rightarrow> CacheValue j
           | Some v \<Rightarrow>
               (case mo_cache objs of
                  None \<Rightarrow> CacheValue j
                | Some w \<Rightarrow> CacheValue (withMinify w j))))"

text \<open>The manifest after line 318: its \<open>minify\<close> or \<open>mangle\<close> object as
  \<open>normalizeMinifyOptions\<close> left it, where the options were taken from it.\<close>

definition manifestAfter :: "manifest \<Rightarrow> minify_objects \<Rightarrow> manifest" where
  "manifestAfter p objs =
     (case manifestObject p of
        None \<Rightarrow> p
      | Some v \<Rightarrow>
          (case mo_manifest objs of
             None \<Rightarrow> p
           | Some w \<Rightarrow>
               (case minifySource p of
                  FromMinify \<Rightarrow> p\<lparr>pkg_minify := Some w\<rparr>
                | FromMangle \<Rightarrow> p\<lparr>pkg_mangle := Some w\<rparr>
                | FromLiteral \<Rightarrow> p)))"

text \<open>The options a call of \<open>createConfig\<close> leaves behind: the object \<open>options\<close> is
  shared by all the calls, and so is the manifest in it.\<close>

definition optionsAfter :: "host \<Rightarrow> options \<Rightarrow> options" where
  "optionsAfter h opts =
     (case normalizeMinifyOptions h (minifyArgument h opts) of
        Inl e \<Rightarrow> opts
      | Inr objs \<Rightarrow> opts\<lparr>pkg := manifestAfter (pkg opts) objs\<rparr>)"

section \<open>The shebang table\<close>

text \<open>
  The table \<open>shebang\<close> (line 204) is an object literal shared by all the steps; it is
  modelled by the properties of its own. Reading a name it has no property for finds what
  every object inherits, if the name is such a key, and \<open>undefined\<close> otherwise; assigning
  a string to \<open>__proto__\<close> adds no property.
\<close>

type_synonym shebang_table = "string \<Rightarrow> string option"

datatype table_value = NoValue | InheritedValue | ShebangLine string

definition tableGet :: "shebang_table \<Rightarrow> string \<Rightarrow> table_value" where
  "tableGet table k =
     (case table k of
        Some line \<Rightarrow> ShebangLine line
      | None \<Rightarrow> if k \<in> set objectPrototypeKeys then InheritedValue else NoValue)"

definition tableSet :: "shebang_table \<Rightarrow> string \<Rightarrow> string \<Rightarrow> shebang_table" where
  "tableSet table k line = (if k = ''__proto__'' then table else table(k \<mapsto> line))"

text \<open>
  The transform of lines 375 to 380:
  \<open>code.replace(/^#![^\n]*/, bang => { shebang[options.name] = bang; })\<close>.
  The function given to \<open>replace\<close> returns nothing, and \<open>replace\<close> puts the text of what
  the function returns (\<open>undefined\<close>) in the place of the match.
\<close>

definition shebangTransform :: "string \<Rightarrow> string \<Rightarrow> shebang_table \<Rightarrow> string \<times> shebang_table" where
  "shebangTransform buildName code table =
     (if startsWith code ''#!''
      then (let bang = ''#!'' @ takeWhile (\<lambda>c. c \<noteq> CHR 0x0A) (drop 2 code)
            in (''undefined'' @ drop (length bang) code, tableSet table buildName bang))
      else (code, table))"

section \<open>The configuration of one step\<close>

datatype 'b rollup_cache = CacheUndefined | CacheFalse | CacheBundle 'b

record 'b input_options =
  io_cache :: "'b rollup_cache"
  io_input :: string
  io_external :: "string \<Rightarrow> bool"

record output_options =
  oo_format :: string
  oo_name :: string
  oo_file :: string

text \<open>
  What \<open>createConfig\<close> returns, with what its plugins keep of the call:
  whether the step is the one that writes the shared files (\<open>writeMeta\<close>), whether the
  minifier runs, the name cache given to it, the path of the cache file, and whether
  the plugin with the \<open>options\<close> and \<open>writeBundle\<close> hooks of the name cache is there.
\<close>

record 'b config =
  inputOptions :: "'b input_options"
  outputOptions :: output_options
  writeMeta :: bool
  minifies :: bool
  nameCache :: name_cache
  nameCachePath :: string
  nameCacheHooks :: bool

text \<open>What the calls that make the plugins are given.\<close>

definition pluginCall ::
  "options \<Rightarrow> string \<Rightarrow> string \<Rightarrow> bool \<Rightarrow> (string \<times> string) list \<Rightarrow> (string \<times> string) list \<Rightarrow>
   minify_objects \<Rightarrow> name_cache \<Rightarrow> plugin_call" where
  "pluginCall opts entry fmt meta aliases defines objs cache =
     \<lparr> pc_options = opts\<lparr>pkg := manifestAfter (pkg opts) objs\<rparr>,
       pc_entry = entry,
       pc_format = fmt,
       pc_writeMeta = meta,
       pc_aliases = aliases,
       pc_defines = defines,
       pc_minifyOptions = mo_argument objs,
       pc_nameCache = cache \<rparr>"

text \<open>
  \<open>createConfig\<close>, in the order of its calls that may throw: the arguments are parsed
  (lines 219 to 249), the pattern of the external modules is compiled (line 299), the
  name cache is loaded, which never throws (line 316), the options of the minifier are
  normalized (line 318), the plugins are made (lines 340 to 487) and the file of the
  format is resolved (line 503). The first exception ends the call.
\<close>

definition createConfig ::
  "host \<Rightarrow> options \<Rightarrow> string \<Rightarrow> string \<Rightarrow> bool \<Rightarrow> js_error + 'b config" where
  "createConfig h opts entry fmt meta =
     (let names = externalNames opts entry;
          modern = (fmt = ''modern'')
      in case moduleAliases h opts of
           Inl e \<Rightarrow> Inl e
         | Inr aliases \<Rightarrow>
      (case parsedGlobals h opts of
           Inl e \<Rightarrow> Inl e
         | Inr globals \<Rightarrow>
      (case parsedDefines h opts of
           Inl e \<Rightarrow> Inl e
         | Inr defines \<Rightarrow>
      (case newExternalPredicate h names of
           Inl e \<Rightarrow> Inl e
         | Inr externalPredicate \<Rightarrow>
      (case normalizeMinifyOptions h (minifyArgument h opts) of
           Inl e \<Rightarrow> Inl e
         | Inr objs \<Rightarrow>
      (let cache = nameCacheAfter h opts objs
       in case pluginFactories h (pluginCall opts entry fmt meta aliases defines objs cache) of
            Some e \<Rightarrow> Inl e
          | None \<Rightarrow>
      (case outputFile h opts entry fmt of
           Inl e \<Rightarrow> Inl e
         | Inr f \<Rightarrow>
             Inr \<lparr> inputOptions =
                     \<lparr> io_cache = (if modern then CacheFalse else CacheUndefined),
                       io_input = entry,
                       io_external = inputExternal opts (externalTest names externalPredicate) \<rparr>,
                   outputOptions =
                     \<lparr> oo_format = (if modern then ''es'' else fmt),
                       oo_name = name opts,
                       oo_file = f \<rparr>,
                   writeMeta = meta,
                   minifies = compress opts,
                   nameCache = cache,
                   nameCachePath = getNameCachePath h opts,
                   nameCacheHooks = (compress opts \<and> truthyCache cache) \<rparr>)))))))"

text \<open>The getter \<open>banner\<close> of the output options reads the table when the file is written.\<close>

definition banner :: "'b config \<Rightarrow> shebang_table \<Rightarrow> table_value" where
  "banner c table = tableGet table (oo_name (outputOptions c))"

definition transform :: "'b config \<Rightarrow> string \<Rightarrow> shebang_table \<Rightarrow> string \<times> shebang_table" where
  "transform c code table = shebangTransform (oo_name (outputOptions c)) code table"

text \<open>
  The hooks of the name-cache plugin. \<open>options\<close> reloads the file before a build.
  \<open>writeBundle\<close> gives the file it writes after one, if any: the name cache as it is at
  that moment, which the minifier has had in its hands since the step was made.
\<close>

definition optionsHook :: "host \<Rightarrow> 'b config \<Rightarrow> name_cache \<Rightarrow> name_cache" where
  "optionsHook h c cache =
     (if nameCacheHooks c then loadNameCache h (nameCachePath c) cache else cache)"

definition writeBundleHook :: "'b config \<Rightarrow> name_cache \<Rightarrow> (string \<times> json) option" where
  "writeBundleHook c cache =
     (if nameCacheHooks c \<and> writeMeta c \<and> truthyCache cache
      then Some (nameCachePath c, cacheContents cache)
      else None)"

section \<open>The build plan\<close>

text \<open>\<open>(options.format || options.formats).split(',')\<close>: a TypeError when neither is a
  string to split.\<close>

definition requestedFormats :: "options \<Rightarrow> js_error + string" where
  "requestedFormats opts =
     (case format opts of
        None \<Rightarrow> (case formats opts of None \<Rightarrow> Inl TypeError | Some s \<Rightarrow> Inr s)
      | Some f \<Rightarrow>
          if f = [] then (case formats opts of None \<Rightarrow> Inl TypeError | Some s \<Rightarrow> Inr s)
          else Inr f)"

text \<open>
  The two loops of lines 87 to 98; \<open>i\<close> and \<open>j\<close> are the indices of the entry and of the
  format. An exception of \<open>createConfig\<close> ends them. Every call is given the object
  \<open>options\<close> as the calls before it left it; the inner loop returns it with its steps.
\<close>

fun formatLoop ::
  "host \<Rightarrow> options \<Rightarrow> string \<Rightarrow> nat \<Rightarrow> nat \<Rightarrow> string list \<Rightarrow>
   js_error + ('b config list \<times> options)" where
  "formatLoop h opts entry i j [] = Inr ([], opts)"
| "formatLoop h opts entry i j (fmt # fmts) =
     (case createConfig h opts entry fmt (i = 0 \<and> j = 0) of
        Inl e \<Rightarrow> Inl e
      | Inr c \<Rightarrow>
          (case formatLoop h (optionsAfter h opts) entry i (Suc j) fmts of
             Inl e \<Rightarrow> Inl e
           | Inr (cs, opts') \<Rightarrow> Inr (c # cs, opts')))"

fun entryLoop ::
  "host \<Rightarrow> options \<Rightarrow> nat \<Rightarrow> string list \<Rightarrow> string list \<Rightarrow> js_error + 'b config list" where
  "entryLoop h opts i [] fmts = Inr []"
| "entryLoop h opts i (entry # others) fmts =
     (case formatLoop h opts entry i 0 fmts of
        Inl e \<Rightarrow> Inl e
      | Inr (cs, opts') \<Rightarrow>
          (case entryLoop h opts' (Suc i) others fmts of
             Inl e \<Rightarrow> Inl e
           | Inr ds \<Rightarrow> Inr (cs @ ds)))"

text \<open>Lines 80 to 98 of \<open>microbundle\<close>: the array \<open>steps\<close>. (\<open>generateBundle\<close> orders its
  formats by the same call of \<open>sort\<close>, lines 145 to 147.)\<close>

definition buildSteps :: "host \<Rightarrow> options \<Rightarrow> js_error + 'b config list" where
  "buildSteps h opts0 =
     (let opts = opts0\<lparr>multipleEntries := 1 < length (entries opts0)\<rparr> in
      case requestedFormats opts of
        Inl e \<Rightarrow> Inl e
      | Inr s \<Rightarrow> entryLoop h opts 0 (entries opts) (sortFormats s))"

text \<open>Options that differ at most in the manifest's \<open>minify\<close> and \<open>mangle\<close>, as the
  options of two calls of one plan do.\<close>

definition sameButMinify :: "options \<Rightarrow> options \<Rightarrow> bool" where
  "sameButMinify o1 o2 =
     (o2 = o1\<lparr>pkg := (pkg o1)\<lparr>pkg_minify := pkg_minify (pkg o2), pkg_mangle := pkg_mangle (pkg o2)\<rparr>\<rparr>)"

text \<open>A step made by \<open>createConfig\<close> for an entry and a format, from options that differ
  from the given ones at most in that way.\<close>

abbreviation madeFrom :: "host \<Rightarrow> options \<Rightarrow> 'b config \<Rightarrow> string \<Rightarrow> string \<Rightarrow> bool" where
  "madeFrom h opts c e f \<equiv> \<exists>o1 m. sameButMinify opts o1 \<and> createConfig h o1 e f m = Inr c"

section \<open>The batch build\<close>




section \<open>A package to evaluate on\<close>

text \<open>
  A package \<open>demo\<close> in \<open>/p\<close> with one dependency, no cache file on disk and the engine's
  constructor never consulted. No helper and no plugin factory throws; what
  \<open>normalizeMinifyOptions\<close> leaves in the objects is not read by anything evaluated
  below, so they are left as they are. \<open>demoOptions\<close> asks for the formats \<open>es\<close> and
  \<open>cjs\<close> of the one entry \<open>/p/src/index.js\<close>.
\<close>

definition demoHost :: host where
  "demoHost =
     \<lparr> process_cwd = ''/p'',
       readFileSync = (\<lambda>f. None),
       JSON_parse = (\<lambda>t. None),
       RegExp_engine = (\<lambda>src. None),
       parseAliasArgument = (\<lambda>a. Inr []),
       parseMappingArgument = (\<lambda>b m. Inr []),
       normalizeMinifyOptions = (\<lambda>objs. Inr objs),
       pluginFactories = (\<lambda>call. None) \<rparr>"

definition demoManifest :: manifest where
  "demoManifest =
     \<lparr> pkg_module = None,
       pkg_jsnext_main = None,
       pkg_syntax_esmodules = None,
       pkg_esmodule = None,
       pkg_cjs_main = None,
       pkg_umd_main = None,
       pkg_dependencies = Some [''react''],
       pkg_peerDependencies = None,
       pkg_minify = None,
       pkg_mangle = None \<rparr>"

definition demoOptions :: options where
  "demoOptions =
     \<lparr> cwd = ''/p'',
       entries = [''/p/src/index.js''],
       opt_output = ''/p/dist/demo.js'',
       format = Some ''es,cjs'',
       formats = None,
       external = None,
       opt_alias = None,
       opt_globals = None,
       opt_define = None,
       name = ''demo'',
       compress = True,
       pkg = demoManifest,
       multipleEntries = False \<rparr>"

text \<open>The same package with two entries and the one format \<open>cjs\<close>.\<close>

definition twoEntryOptions :: options where
  "twoEntryOptions =
     demoOptions\<lparr>entries := [''/p/src/a.js'', ''/p/src/b.js''], format := Some ''cjs''\<rparr>"



text \<open>The same package asking to bundle everything.\<close>

definition bundleAllOptions :: options where
  "bundleAllOptions = demoOptions\<lparr>external := Some ''none''\<rparr>"

text \<open>The same package depending on \<open>lodash.debounce\<close> instead.\<close>

definition dottedOptions :: options where
  "dottedOptions = demoOptions\<lparr>pkg := demoManifest\<lparr>pkg_dependencies := Some [''lodash.debounce'']\<rparr>\<rparr>"

text \<open>A cache file that is missing or cannot be parsed: \<open>fs.readFileSync\<close> or
  \<open>JSON.parse\<close> throws.\<close>

definition unreadable :: "host \<Rightarrow> string \<Rightarrow> bool" where
  "unreadable h cachePath =
     (case readFileSync h cachePath of
        None \<Rightarrow> True
      | Some contents \<Rightarrow> (case JSON_parse h contents of None \<Rightarrow> True | Some parsed \<Rightarrow> False))"

text \<open>The host of the package \<open>demo\<close> with a cache file \<open>/p/mangle.json\<close> in place, whose
  text \<open>{"vars":{}}\<close> parses to an object with the one key \<open>vars\<close>.\<close>

definition cacheText :: string where
  "cacheText = ''{'' @ [CHR 0x22] @ ''vars'' @ [CHR 0x22] @ '':{}}''"

definition cachedHost :: host where
  "cachedHost =
     demoHost\<lparr> readFileSync := (\<lambda>f. if f = ''/p/mangle.json'' then Some cacheText else None),
               JSON_parse := (\<lambda>t. if t = cacheText then Some (JObject [(''vars'', JObject [])]) else None) \<rparr>"

text \<open>The same package asking for the formats \<open>cjs\<close> and \<open>esm\<close>.\<close>

definition esmOptions :: options where
  "esmOptions = demoOptions\<lparr>format := Some ''cjs,esm''\<rparr>"

section \<open>The sort puts cjs first\<close>

lemma binarySearch_first:
  "(\<And>y. cmp p y < 0) \<Longrightarrow> binarySearch cmp p w l r = l"
  by (induction cmp p w l r rule: binarySearch.induct)
     (subst binarySearch.simps, simp add: Let_def)

lemma binarySearch_last:
  "(\<And>y. \<not> cmp p y < 0) \<Longrightarrow> l \<le> r \<Longrightarrow> binarySearch cmp p w l r = r"
  apply (induction cmp p w l r rule: binarySearch.induct)
  apply (subst binarySearch.simps)
  apply (auto simp: Let_def)
  done

lemma insertPivot_cjs: "insertPivot compareFormats w ''cjs'' = ''cjs'' # w"
  by (simp add: insertPivot_def binarySearch_first compareFormats_def)

lemma insertPivot_other: "p \<noteq> ''cjs'' \<Longrightarrow> insertPivot compareFormats w p = w @ [p]"
  by (simp add: insertPivot_def binarySearch_last compareFormats_def)

lemma binarySearch_bound: "l \<le> r \<Longrightarrow> binarySearch cmp p w l r \<le> r"
proof (induction cmp p w l r rule: binarySearch.induct)
  case (1 cmp p w l r)
  show ?case
  proof (cases "l < r")
    case False
    then show ?thesis using "1.prems" by (subst binarySearch.simps) simp
  next
    case True
    let ?mid = "l + (r - l) div 2"
    show ?thesis
    proof (cases "cmp p (w ! ?mid) < 0")
      case neg: True
      have "binarySearch cmp p w l ?mid \<le> ?mid"
        using "1.IH"(1)[OF True refl neg] by simp
      moreover have "?mid \<le> r" using True by simp
      ultimately show ?thesis using True neg
        by (subst binarySearch.simps) (simp add: Let_def)
    next
      case nonneg: False
      have "binarySearch cmp p w (?mid + 1) r \<le> r"
        using "1.IH"(2)[OF True refl nonneg] True by simp
      then show ?thesis using True nonneg
        by (subst binarySearch.simps) (simp add: Let_def)
    qed
  qed
qed

lemma extendRun_le: "extendRun cmp d prev rest \<le> length rest"
  by (induction rest arbitrary: prev) (auto simp: Let_def)

lemma countAndMakeRun_split:
  "\<exists>n. countAndMakeRun cmp xs = (take n xs, drop n xs) \<or>
       countAndMakeRun cmp xs = (rev (take n xs), drop n xs)"
proof (cases xs)
  case Nil
  then show ?thesis by (simp add: countAndMakeRun_def)
next
  case (Cons a ys)
  show ?thesis
  proof (cases ys)
    case Nil
    with Cons have "countAndMakeRun cmp xs = (take 1 xs, drop 1 xs)"
      by (simp add: countAndMakeRun_def)
    then show ?thesis by blast
  next
    case (Cons b rest)
    define n where "n = 2 + extendRun cmp (cmp b a < 0) b rest"
    have "countAndMakeRun cmp xs =
            (if cmp b a < 0 then rev (take n xs) else take n xs, drop n xs)"
      unfolding countAndMakeRun_def n_def using \<open>xs = a # ys\<close> Cons
      by (simp add: Let_def)
    then show ?thesis by (cases "cmp b a < 0") auto
  qed
qed

lemma take_drop_length: "length (take n xs) + length (drop n xs) = length xs"
  by simp

lemma take_drop_set: "set (take n xs) \<union> set (drop n xs) = set xs"
  by (metis append_take_drop_id set_append)

lemma countAndMakeRun_length:
  assumes "countAndMakeRun cmp xs = (run, later)"
  shows "length run + length later = length xs"
proof -
  obtain n where "(run, later) = (take n xs, drop n xs) \<or> (run, later) = (rev (take n xs), drop n xs)"
    using countAndMakeRun_split[of cmp xs] assms by auto
  then show ?thesis using take_drop_length[of n xs] by auto
qed

lemma countAndMakeRun_set:
  assumes "countAndMakeRun cmp xs = (run, later)"
  shows "set run \<union> set later = set xs"
proof -
  obtain n where "(run, later) = (take n xs, drop n xs) \<or> (run, later) = (rev (take n xs), drop n xs)"
    using countAndMakeRun_split[of cmp xs] assms by auto
  then have "set run = set (take n xs)" and "later = drop n xs" by auto
  then show ?thesis using take_drop_set[of n xs] by simp
qed

lemma insertPivot_length: "length (insertPivot cmp w p) = Suc (length w)"
  using binarySearch_bound[of 0 "length w" cmp p w]
  unfolding insertPivot_def Let_def by simp

lemma set_insert_at: "set (take n w @ p # drop n w) = insert p (set w)"
proof -
  have "set (take n w) \<union> set (drop n w) = set w"
    by (metis append_take_drop_id set_append)
  then show ?thesis by auto
qed

lemma insertPivot_set: "set (insertPivot cmp w p) = insert p (set w)"
  unfolding insertPivot_def Let_def by (rule set_insert_at)

lemma foldl_insertPivot_length:
  "length (foldl (insertPivot cmp) w later) = length w + length later"
  by (induction later arbitrary: w) (simp_all add: insertPivot_length)

lemma foldl_insertPivot_set:
  "set (foldl (insertPivot cmp) w later) = set w \<union> set later"
  by (induction later arbitrary: w) (auto simp: insertPivot_set)

lemma js_sort_length: "length (js_sort cmp xs) = length xs"
proof (cases "length xs < 2")
  case True
  then show ?thesis by (simp add: js_sort_def)
next
  case False
  obtain run later where r: "countAndMakeRun cmp xs = (run, later)"
    by (cases "countAndMakeRun cmp xs")
  with False show ?thesis
    using countAndMakeRun_length[OF r] by (simp add: js_sort_def foldl_insertPivot_length)
qed

lemma js_sort_set: "set (js_sort cmp xs) = set xs"
proof (cases "length xs < 2")
  case True
  then show ?thesis by (simp add: js_sort_def)
next
  case False
  obtain run later where r: "countAndMakeRun cmp xs = (run, later)"
    by (cases "countAndMakeRun cmp xs")
  with False show ?thesis
    using countAndMakeRun_set[OF r] by (simp add: js_sort_def foldl_insertPivot_set)
qed

lemma extendRun_descending_cjs:
  "x \<in> set (take (extendRun compareFormats True prev rest) rest) \<Longrightarrow> x = ''cjs''"
proof (induction rest arbitrary: prev)
  case Nil
  then show ?case by simp
next
  case (Cons c cs)
  then show ?case
    by (cases "c = ''cjs''") (auto simp: Let_def compareFormats_def split: if_splits)
qed

lemma extendRun_ascending_no_cjs:
  "''cjs'' \<notin> set (take (extendRun compareFormats False prev rest) rest)"
proof (induction rest arbitrary: prev)
  case Nil
  then show ?case by simp
next
  case (Cons c cs)
  then show ?case
    by (cases "c = ''cjs''") (auto simp: Let_def compareFormats_def)
qed

lemma countAndMakeRun_cjs:
  assumes "countAndMakeRun compareFormats xs = (run, later)" and "xs \<noteq> []"
  shows "run \<noteq> [] \<and> (hd run = ''cjs'' \<or> ''cjs'' \<notin> set run)"
proof (cases xs)
  case Nil
  with assms show ?thesis by simp
next
  case (Cons a ys)
  show ?thesis
  proof (cases ys)
    case Nil
    with Cons assms show ?thesis by (auto simp: countAndMakeRun_def)
  next
    case (Cons b rest)
    let ?k = "extendRun compareFormats (b = ''cjs'') b rest"
    have d: "(compareFormats b a < 0) = (b = ''cjs'')"
      by (simp add: compareFormats_def)
    have "fst (countAndMakeRun compareFormats (a # b # rest)) =
            (if compareFormats b a < 0
             then rev (a # b # take (extendRun compareFormats (compareFormats b a < 0) b rest) rest)
             else a # b # take (extendRun compareFormats (compareFormats b a < 0) b rest) rest)"
      by (simp add: countAndMakeRun_def Let_def)
    then have run: "run = (if b = ''cjs'' then rev (a # b # take ?k rest) else a # b # take ?k rest)"
      using assms(1) \<open>xs = a # ys\<close> Cons unfolding d by simp
    show ?thesis
    proof (cases "b = ''cjs''")
      case True
      define t where "t = take ?k rest"
      have "?k = extendRun compareFormats True b rest" using True by simp
      then have allcjs: "\<And>x. x \<in> set t \<Longrightarrow> x = ''cjs''"
        unfolding t_def using extendRun_descending_cjs[of _ b rest] by simp
      have "hd (rev (a # b # t)) = ''cjs''"
      proof (cases t rule: rev_cases)
        case Nil
        then show ?thesis using True by simp
      next
        case (snoc ys y)
        then show ?thesis using allcjs[of y] by simp
      qed
      then have "hd (rev (a # b # take ?k rest)) = ''cjs''" unfolding t_def .
      with run True show ?thesis by simp
    next
      case False
      then show ?thesis using run extendRun_ascending_no_cjs[of b rest] by auto
    qed
  qed
qed

lemma insertPivot_cjs_leads:
  assumes "w \<noteq> [] \<and> (hd w = ''cjs'' \<or> ''cjs'' \<notin> set w)"
  shows "insertPivot compareFormats w p \<noteq> [] \<and>
         (hd (insertPivot compareFormats w p) = ''cjs'' \<or>
          ''cjs'' \<notin> set (insertPivot compareFormats w p))"
proof (cases "p = ''cjs''")
  case True
  then show ?thesis by (simp add: insertPivot_cjs)
next
  case False
  then show ?thesis using assms by (auto simp: insertPivot_other)
qed

lemma foldl_insertPivot_cjs_leads:
  "w \<noteq> [] \<and> (hd w = ''cjs'' \<or> ''cjs'' \<notin> set w) \<Longrightarrow>
   foldl (insertPivot compareFormats) w later \<noteq> [] \<and>
   (hd (foldl (insertPivot compareFormats) w later) = ''cjs'' \<or>
    ''cjs'' \<notin> set (foldl (insertPivot compareFormats) w later))"
proof (induction later arbitrary: w)
  case Nil
  then show ?case by simp
next
  case (Cons p ps)
  show ?case using Cons.IH[OF insertPivot_cjs_leads[OF Cons.prems]] by simp
qed

lemma js_sort_cjs_leads:
  assumes "xs \<noteq> []"
  shows "hd (js_sort compareFormats xs) = ''cjs'' \<or> ''cjs'' \<notin> set (js_sort compareFormats xs)"
proof (cases "length xs < 2")
  case True
  with assms obtain x where "xs = [x]" by (cases xs) auto
  then show ?thesis by (auto simp: js_sort_def)
next
  case False
  obtain run later where r: "countAndMakeRun compareFormats xs = (run, later)"
    by (cases "countAndMakeRun compareFormats xs")
  show ?thesis
    using False foldl_insertPivot_cjs_leads[OF countAndMakeRun_cjs[OF r assms], of later]
    by (simp add: js_sort_def r)
qed

lemma split_on_not_Nil: "split_on c s \<noteq> []"
  by (induction s) (auto split: list.splits)

lemma sortFormats_cjs_first:
  "''cjs'' \<in> set (split_on CHR '','' s) \<Longrightarrow> hd (sortFormats s) = ''cjs''"
  using js_sort_cjs_leads[OF split_on_not_Nil, of "CHR '',''" s]
  by (simp add: sortFormats_def js_sort_set)

lemma sortFormats_length: "length (sortFormats s) = length (split_on CHR '','' s)"
  by (simp add: sortFormats_def js_sort_length)

lemma sortFormats_set: "set (sortFormats s) = set (split_on CHR '','' s)"
  by (simp add: sortFormats_def js_sort_set)

section \<open>The options from one call to the next\<close>

lemma sameButMinify_refl: "sameButMinify o1 o1"
  by (simp add: sameButMinify_def)

lemma sameButMinify_form:
  "sameButMinify o1 o2 \<Longrightarrow> \<exists>a b. o2 = o1\<lparr>pkg := (pkg o1)\<lparr>pkg_minify := a, pkg_mangle := b\<rparr>\<rparr>"
  unfolding sameButMinify_def by blast

lemma sameButMinify_intro:
  "o2 = o1\<lparr>pkg := (pkg o1)\<lparr>pkg_minify := a, pkg_mangle := b\<rparr>\<rparr> \<Longrightarrow> sameButMinify o1 o2"
  by (simp add: sameButMinify_def)

lemma sameButMinify_trans:
  assumes "sameButMinify o1 o2" and "sameButMinify o2 o3"
  shows "sameButMinify o1 o3"
proof -
  obtain a b where o2: "o2 = o1\<lparr>pkg := (pkg o1)\<lparr>pkg_minify := a, pkg_mangle := b\<rparr>\<rparr>"
    using sameButMinify_form[OF assms(1)] by blast
  obtain c d where o3: "o3 = o2\<lparr>pkg := (pkg o2)\<lparr>pkg_minify := c, pkg_mangle := d\<rparr>\<rparr>"
    using sameButMinify_form[OF assms(2)] by blast
  have "o3 = o1\<lparr>pkg := (pkg o1)\<lparr>pkg_minify := c, pkg_mangle := d\<rparr>\<rparr>"
    unfolding o3 o2 by simp
  then show ?thesis by (rule sameButMinify_intro)
qed

lemma manifestAfter_form:
  "manifestAfter p objs =
     p\<lparr>pkg_minify := pkg_minify (manifestAfter p objs), pkg_mangle := pkg_mangle (manifestAfter p objs)\<rparr>"
  by (simp add: manifestAfter_def split: option.splits minify_source.splits)

lemma sameButMinify_optionsAfter: "sameButMinify opts (optionsAfter h opts)"
proof (cases "normalizeMinifyOptions h (minifyArgument h opts)")
  case (Inl e)
  then show ?thesis by (simp add: optionsAfter_def sameButMinify_refl)
next
  case (Inr objs)
  have "optionsAfter h opts = opts\<lparr>pkg := manifestAfter (pkg opts) objs\<rparr>"
    using Inr by (simp add: optionsAfter_def)
  also have "\<dots> = opts\<lparr>pkg := (pkg opts)\<lparr>pkg_minify := pkg_minify (manifestAfter (pkg opts) objs),
                                             pkg_mangle := pkg_mangle (manifestAfter (pkg opts) objs)\<rparr>\<rparr>"
    using manifestAfter_form[of "pkg opts" objs] by simp
  finally show ?thesis by (rule sameButMinify_intro)
qed

lemma sameButMinify_fields:
  assumes "sameButMinify o1 o2"
  shows "entries o2 = entries o1" and "multipleEntries o2 = multipleEntries o1"
    and "name o2 = name o1" and "compress o2 = compress o1" and "cwd o2 = cwd o1"
    and "externalNames o2 e = externalNames o1 e"
    and "inputExternal o2 = inputExternal o1"
    and "mainNoExtension h o2 e = mainNoExtension h o1 e"
    and "outputFile h o2 e f = outputFile h o1 e f"
proof -
  obtain a b where o2: "o2 = o1\<lparr>pkg := (pkg o1)\<lparr>pkg_minify := a, pkg_mangle := b\<rparr>\<rparr>"
    using sameButMinify_form[OF assms] by blast
  show "entries o2 = entries o1" "multipleEntries o2 = multipleEntries o1"
    "name o2 = name o1" "compress o2 = compress o1" "cwd o2 = cwd o1"
    unfolding o2 by simp_all
  show "externalNames o2 e = externalNames o1 e"
    unfolding o2 by (simp add: externalNames_def)
  show "inputExternal o2 = inputExternal o1"
    unfolding o2 by (rule ext, rule ext) (simp add: inputExternal_def)
  show m: "mainNoExtension h o2 e = mainNoExtension h o1 e"
    unfolding o2 by (simp add: mainNoExtension_def)
  have t: "moduleTemplate (pkg o2) = moduleTemplate (pkg o1)"
    "modernTemplate (pkg o2) = modernTemplate (pkg o1)"
    "cjsTemplate (pkg o2) = cjsTemplate (pkg o1)"
    "umdTemplate (pkg o2) = umdTemplate (pkg o1)"
    unfolding o2
    by (simp_all add: moduleTemplate_def modernTemplate_def cjsTemplate_def umdTemplate_def
        split: option.splits)
  have c: "cwd o2 = cwd o1" unfolding o2 by simp
  show "outputFile h o2 e f = outputFile h o1 e f"
    by (simp add: outputFile_def moduleMain_def modernMain_def cjsMain_def umdMain_def m t c)
qed

section \<open>What a created step holds\<close>

lemma createConfig_fields:
  assumes "createConfig h opts e fmt m = Inr (c :: 'b config)"
  shows "io_input (inputOptions c) = e"
    and "\<exists>p. newExternalPredicate h (externalNames opts e) = Inr p \<and>
             io_external (inputOptions c) = inputExternal opts (externalTest (externalNames opts e) p)"
    and "io_cache (inputOptions c) = (if fmt = ''modern'' then CacheFalse else CacheUndefined)"
    and "outputFile h opts e fmt = Inr (oo_file (outputOptions c))"
    and "oo_format (outputOptions c) = (if fmt = ''modern'' then ''es'' else fmt)"
    and "nameCacheHooks c = (compress opts \<and> truthyCache (nameCache c))"
    and "writeMeta c = m"
    and "nameCachePath c = getNameCachePath h opts"
    and "oo_name (outputOptions c) = name opts"
    and "\<exists>objs. normalizeMinifyOptions h (minifyArgument h opts) = Inr objs \<and>
                nameCache c = nameCacheAfter h opts objs"
  using assms
  by (auto simp: createConfig_def Let_def split: sum.splits option.splits)

lemma formatLoop_structure:
  "formatLoop h o1 e i j fmts = Inr (cs, o2) \<Longrightarrow> sameButMinify o0 o1 \<Longrightarrow>
   sameButMinify o0 o2 \<and> list_all2 (\<lambda>c f. madeFrom h o0 c e f) cs fmts \<and>
   (fmts \<noteq> [] \<longrightarrow> writeMeta (hd cs) = (i = 0 \<and> j = 0))"
proof (induction fmts arbitrary: o1 j cs)
  case Nil
  then show ?case by simp
next
  case (Cons fmt fmts)
  from Cons.prems(1) obtain c0 cs0 where
    c0: "createConfig h o1 e fmt (i = 0 \<and> j = 0) = Inr c0"
    and cs0: "formatLoop h (optionsAfter h o1) e i (Suc j) fmts = Inr (cs0, o2)"
    and cs: "cs = c0 # cs0"
    by (auto split: sum.splits prod.splits)
  have s: "sameButMinify o0 (optionsAfter h o1)"
    by (rule sameButMinify_trans[OF Cons.prems(2) sameButMinify_optionsAfter])
  note ih = Cons.IH[OF cs0 s]
  have m: "madeFrom h o0 c0 e fmt" using Cons.prems(2) c0 by blast
  have w: "writeMeta c0 = (i = 0 \<and> j = 0)" by (rule createConfig_fields(7)[OF c0])
  show ?case using ih m w cs by simp
qed

lemma entryLoop_structure:
  "entryLoop h o1 i es fmts = Inr steps \<Longrightarrow> sameButMinify o0 o1 \<Longrightarrow>
   list_all2 (\<lambda>c ef. madeFrom h o0 c (fst ef) (snd ef)) steps (List.product es fmts) \<and>
   (es \<noteq> [] \<and> fmts \<noteq> [] \<longrightarrow> writeMeta (hd steps) = (i = 0))"
proof (induction es arbitrary: o1 i steps)
  case Nil
  then show ?case by simp
next
  case (Cons e es)
  from Cons.prems(1) obtain cs o2 ds where
    cs: "formatLoop h o1 e i 0 fmts = Inr (cs, o2)"
    and ds: "entryLoop h o2 (Suc i) es fmts = Inr ds" and st: "steps = cs @ ds"
    by (auto split: sum.splits prod.splits)
  note f = formatLoop_structure[OF cs Cons.prems(2)]
  note ih = Cons.IH[OF ds f[THEN conjunct1]]
  have a: "list_all2 (\<lambda>c ef. madeFrom h o0 c (fst ef) (snd ef)) cs (map (Pair e) fmts)"
    using f[THEN conjunct2, THEN conjunct1] by (simp add: list_all2_map2)
  have l: "list_all2 (\<lambda>c ef. madeFrom h o0 c (fst ef) (snd ef)) (cs @ ds)
             (map (Pair e) fmts @ List.product es fmts)"
    by (rule list_all2_appendI[OF a ih[THEN conjunct1]])
  have len: "length cs = length fmts"
    using f[THEN conjunct2, THEN conjunct1] by (rule list_all2_lengthD)
  have hdcs: "fmts \<noteq> [] \<Longrightarrow> hd (cs @ ds) = hd cs"
    using len by (cases cs) simp_all
  have w: "fmts \<noteq> [] \<longrightarrow> writeMeta (hd (cs @ ds)) = (i = 0)"
    using f[THEN conjunct2, THEN conjunct2] hdcs by simp
  show ?case using l w st by simp
qed

lemma requestedFormats_multipleEntries:
  "requestedFormats (opts\<lparr>multipleEntries := b\<rparr>) = requestedFormats opts"
  by (simp add: requestedFormats_def cong: option.case_cong if_cong)

lemma buildSteps_structure:
  assumes "buildSteps h opts = Inr steps"
  shows "\<exists>s. requestedFormats opts = Inr s \<and>
             list_all2 (\<lambda>c ef. madeFrom h (opts\<lparr>multipleEntries := 1 < length (entries opts)\<rparr>) c (fst ef) (snd ef))
               steps (List.product (entries opts) (sortFormats s)) \<and>
             (entries opts \<noteq> [] \<longrightarrow> writeMeta (hd steps))"
proof -
  let ?o = "opts\<lparr>multipleEntries := 1 < length (entries opts)\<rparr>"
  from assms obtain s where s: "requestedFormats ?o = Inr s"
    and e: "entryLoop h ?o 0 (entries ?o) (sortFormats s) = Inr steps"
    by (auto simp: buildSteps_def Let_def split: sum.splits)
  have r: "requestedFormats opts = Inr s"
    using s by (simp add: requestedFormats_multipleEntries)
  have ne: "sortFormats s \<noteq> []"
    using sortFormats_length[of s] split_on_not_Nil[of "CHR '',''" s] by auto
  note t = entryLoop_structure[OF e sameButMinify_refl]
  have en: "entries ?o = entries opts" by simp
  show ?thesis using r t ne unfolding en by (intro exI[of _ s]) simp
qed

lemma list_all2_map_eq:
  "list_all2 P xs ys \<Longrightarrow> (\<And>x y. P x y \<Longrightarrow> f x = g y) \<Longrightarrow> map f xs = map g ys"
  by (induction rule: list_all2_induct) auto

lemma list_all2_member:
  "list_all2 P xs ys \<Longrightarrow> x \<in> set xs \<Longrightarrow> \<exists>y\<in>set ys. P x y"
  by (induction rule: list_all2_induct) auto

lemma product_map_snd:
  "map (\<lambda>ef. (fst ef, g (snd ef))) (List.product es fs) = List.product es (map g fs)"
  by (induction es) (simp_all add: comp_def)

lemma made_fields:
  assumes "sameButMinify o0 o1" and "createConfig h o1 e f m = Inr (c :: 'b config)"
  shows "io_input (inputOptions c) = e"
    and "oo_format (outputOptions c) = (if f = ''modern'' then ''es'' else f)"
    and "\<exists>p. newExternalPredicate h (externalNames o0 e) = Inr p \<and>
             io_external (inputOptions c) = inputExternal o0 (externalTest (externalNames o0 e) p)"
    and "outputFile h o0 e f = Inr (oo_file (outputOptions c))"
  using createConfig_fields(1,5,2,4)[OF assms(2)]
    sameButMinify_fields(6,7,9)[OF assms(1)]
  by simp_all

lemma buildSteps_origin:
  assumes "buildSteps h opts = Inr steps" and "c \<in> set steps"
  shows "\<exists>e f. e \<in> set (entries opts) \<and>
           madeFrom h (opts\<lparr>multipleEntries := 1 < length (entries opts)\<rparr>) c e f"
proof -
  obtain s where
    l: "list_all2 (\<lambda>c ef. madeFrom h (opts\<lparr>multipleEntries := 1 < length (entries opts)\<rparr>) c (fst ef) (snd ef))
               steps (List.product (entries opts) (sortFormats s))"
    using buildSteps_structure[OF assms(1)] by blast
  obtain ef where ef: "ef \<in> set (List.product (entries opts) (sortFormats s))"
    and m: "madeFrom h (opts\<lparr>multipleEntries := 1 < length (entries opts)\<rparr>) c (fst ef) (snd ef)"
    using list_all2_member[OF l assms(2)] by blast
  have "fst ef \<in> set (entries opts)" using ef by auto
  then show ?thesis using m by blast
qed

lemma externalNames_multipleEntries:
  "externalNames (opts\<lparr>multipleEntries := b\<rparr>) e = externalNames opts e"
  by (simp add: externalNames_def)

section \<open>What makes a plan fail\<close>






section \<open>When a step is created\<close>

lemma createConfig_returns:
  assumes "moduleAliases h opts = Inr aliases"
    and "parsedGlobals h opts = Inr globals"
    and "parsedDefines h opts = Inr defines"
    and "newExternalPredicate h (externalNames opts e) = Inr p"
    and "normalizeMinifyOptions h (minifyArgument h opts) = Inr objs"
    and "pluginFactories h (pluginCall opts e fmt m aliases defines objs (nameCacheAfter h opts objs)) = None"
    and "fmt \<notin> set objectPrototypeKeys"
  shows "\<exists>c :: 'b config. createConfig h opts e fmt m = Inr c"
proof -
  have "\<exists>f. outputFile h opts e fmt = Inr f"
    using assms(7) by (simp add: outputFile_def)
  then obtain f where "outputFile h opts e fmt = Inr f" ..
  then show ?thesis using assms(1-6) by (simp add: createConfig_def Let_def)
qed

lemma demo_external:
  "newExternalPredicate demoHost (externalNames demoOptions ''/p/src/index.js'') =
     Inr (testNames [''dns'', ''fs'', ''path'', ''url'', ''react''])"
  by (simp add: newExternalPredicate_def externalNames_def demoOptions_def demoManifest_def
      keysOrEmpty_def plainName_def plainCharacter_def syntaxCharacters_def)

lemma demo_calls:
  "moduleAliases demoHost demoOptions = Inr []"
  "parsedGlobals demoHost demoOptions = Inr []"
  "parsedDefines demoHost demoOptions = Inr []"
  "normalizeMinifyOptions demoHost (minifyArgument demoHost demoOptions) =
     Inr (minifyArgument demoHost demoOptions)"
  "pluginFactories demoHost call = None"
  by (simp_all add: moduleAliases_def parsedGlobals_def parsedDefines_def demoHost_def demoOptions_def)


section \<open>When a plan is built\<close>

lemma sameButMinify_arguments:
  assumes "sameButMinify o1 o2"
  shows "moduleAliases h o2 = moduleAliases h o1"
    and "parsedGlobals h o2 = parsedGlobals h o1"
    and "parsedDefines h o2 = parsedDefines h o1"
proof -
  obtain a b where o2: "o2 = o1\<lparr>pkg := (pkg o1)\<lparr>pkg_minify := a, pkg_mangle := b\<rparr>\<rparr>"
    using sameButMinify_form[OF assms] by blast
  show "moduleAliases h o2 = moduleAliases h o1" "parsedGlobals h o2 = parsedGlobals h o1"
    "parsedDefines h o2 = parsedDefines h o1"
    unfolding o2 by (simp_all add: moduleAliases_def parsedGlobals_def parsedDefines_def)
qed

lemma created_whenever_calls_return:
  assumes same: "sameButMinify opts o1"
    and al: "moduleAliases h opts = Inr aliases"
    and gl: "parsedGlobals h opts = Inr globals"
    and de: "parsedDefines h opts = Inr defines"
    and ex: "newExternalPredicate h (externalNames opts e) = Inr p"
    and no: "\<forall>objs. \<exists>r. normalizeMinifyOptions h objs = Inr r"
    and pl: "\<forall>call. pluginFactories h call = None"
    and ke: "fmt \<notin> set objectPrototypeKeys"
  shows "\<exists>c :: 'b config. createConfig h o1 e fmt m = Inr c"
proof -
  obtain r where r: "normalizeMinifyOptions h (minifyArgument h o1) = Inr r"
    using no by blast
  have al1: "moduleAliases h o1 = Inr aliases" using al sameButMinify_arguments(1)[OF same] by simp
  have gl1: "parsedGlobals h o1 = Inr globals" using gl sameButMinify_arguments(2)[OF same] by simp
  have de1: "parsedDefines h o1 = Inr defines" using de sameButMinify_arguments(3)[OF same] by simp
  have ex1: "newExternalPredicate h (externalNames o1 e) = Inr p"
    using ex sameButMinify_fields(6)[OF same] by simp
  have pl1: "pluginFactories h (pluginCall o1 e fmt m aliases defines r (nameCacheAfter h o1 r)) = None"
    using pl by simp
  show ?thesis by (rule createConfig_returns[OF al1 gl1 de1 ex1 r pl1 ke])
qed

lemma formatLoop_returns:
  assumes al: "moduleAliases h opts = Inr aliases"
    and gl: "parsedGlobals h opts = Inr globals"
    and de: "parsedDefines h opts = Inr defines"
    and ex: "newExternalPredicate h (externalNames opts e) = Inr p"
    and no: "\<forall>objs. \<exists>r. normalizeMinifyOptions h objs = Inr r"
    and pl: "\<forall>call. pluginFactories h call = None"
  shows "sameButMinify opts o1 \<Longrightarrow> set fmts \<inter> set objectPrototypeKeys = {} \<Longrightarrow>
         \<exists>(cs :: 'b config list) o2. formatLoop h o1 e i j fmts = Inr (cs, o2) \<and> sameButMinify opts o2"
proof (induction fmts arbitrary: o1 j)
  case Nil
  then show ?case by simp
next
  case (Cons fmt fmts)
  from Cons.prems(2) have k: "fmt \<notin> set objectPrototypeKeys"
    and ks: "set fmts \<inter> set objectPrototypeKeys = {}"
    by auto
  obtain c :: "'b config" where c: "createConfig h o1 e fmt (i = 0 \<and> j = 0) = Inr c"
    using created_whenever_calls_return[OF Cons.prems(1) al gl de ex no pl k, where ?'b = 'b]
    by blast
  have s: "sameButMinify opts (optionsAfter h o1)"
    by (rule sameButMinify_trans[OF Cons.prems(1) sameButMinify_optionsAfter])
  obtain cs :: "'b config list" and o2 where
    cs: "formatLoop h (optionsAfter h o1) e i (Suc j) fmts = Inr (cs, o2)" and o2: "sameButMinify opts o2"
    using Cons.IH[OF s ks] by blast
  have "formatLoop h o1 e i j (fmt # fmts) = Inr (c # cs, o2)"
    using c cs by simp
  then show ?case using o2 by blast
qed

lemma entryLoop_returns:
  assumes al: "moduleAliases h opts = Inr aliases"
    and gl: "parsedGlobals h opts = Inr globals"
    and de: "parsedDefines h opts = Inr defines"
    and no: "\<forall>objs. \<exists>r. normalizeMinifyOptions h objs = Inr r"
    and pl: "\<forall>call. pluginFactories h call = None"
    and ke: "set fmts \<inter> set objectPrototypeKeys = {}"
  shows "sameButMinify opts o1 \<Longrightarrow>
         \<forall>e\<in>set es. \<exists>p. newExternalPredicate h (externalNames opts e) = Inr p \<Longrightarrow>
         \<exists>steps :: 'b config list. entryLoop h o1 i es fmts = Inr steps"
proof (induction es arbitrary: o1 i)
  case Nil
  then show ?case by simp
next
  case (Cons e es)
  from Cons.prems(2) obtain p where p: "newExternalPredicate h (externalNames opts e) = Inr p"
    by auto
  from Cons.prems(2) have rest: "\<forall>e\<in>set es. \<exists>p. newExternalPredicate h (externalNames opts e) = Inr p"
    by simp
  obtain cs :: "'b config list" and o2 where
    cs: "formatLoop h o1 e i 0 fmts = Inr (cs, o2)" and o2: "sameButMinify opts o2"
    using formatLoop_returns[OF al gl de p no pl Cons.prems(1) ke, where ?'b = 'b] by blast
  obtain ds :: "'b config list" where ds: "entryLoop h o2 (Suc i) es fmts = Inr ds"
    using Cons.IH[OF o2 rest] by blast
  have "entryLoop h o1 i (e # es) fmts = Inr (cs @ ds)"
    using cs ds by simp
  then show ?case by blast
qed

text \<open>When the arguments parse, the pattern compiles for every entry, no format is an
  inherited key, and neither \<open>normalizeMinifyOptions\<close> nor a plugin factory ever throws,
  every call of \<open>createConfig\<close> returns and the plan is built.\<close>

lemma buildSteps_returns:
  assumes rf: "requestedFormats opts = Inr s"
    and al: "moduleAliases h opts = Inr aliases"
    and gl: "parsedGlobals h opts = Inr globals"
    and de: "parsedDefines h opts = Inr defines"
    and ex: "\<forall>e\<in>set (entries opts). \<exists>p. newExternalPredicate h (externalNames opts e) = Inr p"
    and no: "\<forall>objs. \<exists>r. normalizeMinifyOptions h objs = Inr r"
    and pl: "\<forall>call. pluginFactories h call = None"
    and ke: "set (split_on CHR '','' s) \<inter> set objectPrototypeKeys = {}"
  shows "\<exists>steps :: 'b config list. buildSteps h opts = Inr steps"
proof -
  let ?o = "opts\<lparr>multipleEntries := 1 < length (entries opts)\<rparr>"
  have al': "moduleAliases h ?o = Inr aliases" using al by (simp add: moduleAliases_def)
  have gl': "parsedGlobals h ?o = Inr globals" using gl by (simp add: parsedGlobals_def)
  have de': "parsedDefines h ?o = Inr defines" using de by (simp add: parsedDefines_def)
  have ex': "\<forall>e\<in>set (entries opts). \<exists>p. newExternalPredicate h (externalNames ?o e) = Inr p"
    using ex by (simp add: externalNames_multipleEntries)
  have ke': "set (sortFormats s) \<inter> set objectPrototypeKeys = {}"
    using ke by (simp add: sortFormats_set)
  obtain steps :: "'b config list" where
    "entryLoop h ?o 0 (entries opts) (sortFormats s) = Inr steps"
    using entryLoop_returns[OF al' gl' de' no pl ke' sameButMinify_refl ex', where ?'b = 'b] by blast
  then have "buildSteps h opts = Inr steps"
    using rf by (simp add: buildSteps_def Let_def requestedFormats_multipleEntries)
  then show ?thesis by blast
qed

section \<open>The size and the order of the plan\<close>

lemma hd_product:
  "xs \<noteq> [] \<Longrightarrow> ys \<noteq> [] \<Longrightarrow> hd (List.product xs ys) = (hd xs, hd ys)"
  by (cases xs; cases ys) simp_all

lemma map_sum_Inr:
  "map_sum f g x = Inr y \<Longrightarrow> \<exists>z. x = Inr z \<and> g z = y"
  by (cases x) auto

text \<open>
  C1, as stated, fails where the list of formats names a format twice: the list is split
  at the commas and nothing removes a repetition. For the list \<open>cjs,cjs\<close>, one requested
  format, the plan of the one entry of the package \<open>demo\<close> has two steps, both of them for
  \<open>cjs\<close>.
\<close>

theorem repeated_format_repeats_the_step:
  "map_sum id (map (\<lambda>c. (io_input (inputOptions c), oo_format (outputOptions c))))
     (buildSteps demoHost (demoOptions\<lparr>format := Some ''cjs,cjs''\<rparr>) :: js_error + unit config list) =
   Inr [(''/p/src/index.js'', ''cjs''), (''/p/src/index.js'', ''cjs'')]"
  by code_simp

text \<open>
  C1, amended. In the array \<open>steps\<close> that \<open>microbundle\<close> builds (whenever it builds one:
  \<open>createConfig\<close> may throw, and then there is no plan), there are exactly N * M steps for
  N resolved entries and M pieces of the format list between commas, a format counted as
  often as the list names it; for a list without repetitions M is the number of different
  formats. There is one step for every pair of an entry and a piece, entry by entry, the
  formats in their sorted order. When \<open>cjs\<close> is among the requested formats it is the
  first of the sorted formats, so with at least one entry the first step is the one of
  the first entry and \<open>cjs\<close>, and it is the step created with \<open>writeMeta\<close>.
\<close>

theorem plan_steps:
  assumes "buildSteps h opts = Inr (steps :: 'b config list)"
    and "requestedFormats opts = Inr s"
  shows "length steps = length (entries opts) * length (split_on CHR '','' s) \<and>
         (distinct (split_on CHR '','' s) \<longrightarrow>
            length steps = length (entries opts) * card (set (split_on CHR '','' s))) \<and>
         map (\<lambda>c. (io_input (inputOptions c), oo_format (outputOptions c))) steps =
           List.product (entries opts)
             (map (\<lambda>f. if f = ''modern'' then ''es'' else f) (sortFormats s)) \<and>
         (''cjs'' \<in> set (split_on CHR '','' s) \<longrightarrow>
            hd (sortFormats s) = ''cjs'' \<and>
            (entries opts \<noteq> [] \<longrightarrow>
               io_input (inputOptions (hd steps)) = hd (entries opts) \<and>
               oo_format (outputOptions (hd steps)) = ''cjs'' \<and>
               writeMeta (hd steps)))"
proof -
  let ?o = "opts\<lparr>multipleEntries := 1 < length (entries opts)\<rparr>"
  let ?out = "\<lambda>f. if f = ''modern'' then ''es'' else f"
  let ?pair = "\<lambda>c :: 'b config. (io_input (inputOptions c), oo_format (outputOptions c))"
  obtain s' where s': "requestedFormats opts = Inr s'"
    and l2: "list_all2 (\<lambda>c ef. madeFrom h ?o c (fst ef) (snd ef))
               steps (List.product (entries opts) (sortFormats s'))"
    and w: "entries opts \<noteq> [] \<longrightarrow> writeMeta (hd steps)"
    using buildSteps_structure[OF assms(1)] by blast
  have ss: "s' = s" using s' assms(2) by simp
  note l2 = l2[unfolded ss]
  have "length steps = length (List.product (entries opts) (sortFormats s))"
    using l2 by (rule list_all2_lengthD)
  then have l: "length steps = length (entries opts) * length (split_on CHR '','' s)"
    by (simp add: length_product sortFormats_length)
  have d: "distinct (split_on CHR '','' s) \<longrightarrow>
            length steps = length (entries opts) * card (set (split_on CHR '','' s))"
    using l by (simp add: distinct_card)
  have "map ?pair steps = map (\<lambda>ef. (fst ef, ?out (snd ef))) (List.product (entries opts) (sortFormats s))"
  proof (rule list_all2_map_eq[OF l2])
    fix c :: "'b config" and ef
    assume "madeFrom h ?o c (fst ef) (snd ef)"
    then obtain o1 m where a: "sameButMinify ?o o1" and b: "createConfig h o1 (fst ef) (snd ef) m = Inr c"
      by blast
    show "?pair c = (fst ef, ?out (snd ef))"
      using made_fields(1,2)[OF a b] by simp
  qed
  also have "\<dots> = List.product (entries opts) (map ?out (sortFormats s))"
    using product_map_snd[of ?out "entries opts" "sortFormats s"] by simp
  finally have m: "map ?pair steps = List.product (entries opts) (map ?out (sortFormats s))" .
  have ne: "sortFormats s \<noteq> []"
    using sortFormats_length[of s] split_on_not_Nil[of "CHR '',''" s] by auto
  have first: "io_input (inputOptions (hd steps)) = hd (entries opts) \<and>
               oo_format (outputOptions (hd steps)) = ''cjs'' \<and> writeMeta (hd steps)"
    if c: "''cjs'' \<in> set (split_on CHR '','' s)" and e: "entries opts \<noteq> []"
  proof -
    have sne: "steps \<noteq> []" using l e split_on_not_Nil[of "CHR '',''" s] by auto
    have "?pair (hd steps) = hd (map ?pair steps)" using sne by (simp add: hd_map)
    also have "\<dots> = (hd (entries opts), hd (map ?out (sortFormats s)))"
      unfolding m using e ne by (simp add: hd_product)
    also have "hd (map ?out (sortFormats s)) = ?out (hd (sortFormats s))"
      using ne by (simp add: hd_map)
    also have "\<dots> = ''cjs''" using sortFormats_cjs_first[OF c] by simp
    finally have "?pair (hd steps) = (hd (entries opts), ''cjs'')" .
    moreover have "writeMeta (hd steps)" using w e by simp
    ultimately show ?thesis by simp
  qed
  show ?thesis
    using l d m first sortFormats_cjs_first[of s] by simp
qed

text \<open>The plan of the package \<open>demo\<close>: two steps, \<open>cjs\<close> before \<open>es\<close>.\<close>

lemma demo_formats: "sortFormats ''es,cjs'' = [''cjs'', ''es'']"
  by code_simp

lemma demo_plan_length:
  "map_sum id length (buildSteps demoHost demoOptions :: js_error + unit config list) = Inr 2"
  by code_simp

theorem plan_steps_witness:
  "\<exists>steps :: unit config list.
     buildSteps demoHost demoOptions = Inr steps \<and>
     requestedFormats demoOptions = Inr ''es,cjs'' \<and>
     length steps = 2 \<and>
     map (\<lambda>c. (io_input (inputOptions c), oo_format (outputOptions c))) steps =
       [(''/p/src/index.js'', ''cjs''), (''/p/src/index.js'', ''es'')] \<and>
     writeMeta (hd steps)"
proof -
  have "\<exists>steps :: unit config list. buildSteps demoHost demoOptions = Inr steps \<and> length steps = 2"
    by (rule map_sum_Inr[OF demo_plan_length])
  then obtain steps :: "unit config list" where
    bl: "buildSteps demoHost demoOptions = Inr steps \<and> length steps = 2" ..
  note b = bl[THEN conjunct1]
  have rf: "requestedFormats demoOptions = Inr ''es,cjs''"
    by (simp add: requestedFormats_def demoOptions_def)
  have sp: "split_on CHR '','' ''es,cjs'' = [''es'', ''cjs'']" by simp
  have en: "entries demoOptions = [''/p/src/index.js'']" by (simp add: demoOptions_def)
  note t = plan_steps[OF b rf, unfolded demo_formats sp en]
  have l: "length steps = 2" using t by simp
  have m: "map (\<lambda>c. (io_input (inputOptions c), oo_format (outputOptions c))) steps =
       [(''/p/src/index.js'', ''cjs''), (''/p/src/index.js'', ''es'')]"
    using t by simp
  have w: "writeMeta (hd steps)" using t by simp
  show ?thesis by (rule exI[of _ steps]) (intro conjI b rf l m w)
qed

section \<open>The helper module and the dot\<close>

text \<open>
  C10. In every step of a plan, the function \<open>external\<close> given to the bundler answers
  false for \<open>babel-plugin-transform-async-to-promises/helpers\<close>, whatever the external
  names are, and when the options have more than one entry it answers true for \<open>.\<close>.
\<close>

theorem helpers_bundled_and_dot_external:
  assumes "buildSteps h opts = Inr steps" and "c \<in> set steps"
  shows "io_external (inputOptions c) ''babel-plugin-transform-async-to-promises/helpers'' = False \<and>
         (1 < length (entries opts) \<longrightarrow> io_external (inputOptions c) ''.'' = True)"
proof -
  let ?o = "opts\<lparr>multipleEntries := 1 < length (entries opts)\<rparr>"
  obtain e f o1 m where a: "sameButMinify ?o o1" and b: "createConfig h o1 e f m = Inr c"
    using buildSteps_origin[OF assms] by blast
  from made_fields(3)[OF a b] show ?thesis
    by (auto simp: inputExternal_def)
qed

text \<open>With \<open>babel-plugin-transform-async-to-promises\<close> itself declared external the
  pattern matches the helper module; the function still answers false for it.\<close>

lemma helpers_plan:
  "map_sum id (map (\<lambda>c. (io_external (inputOptions c) ''babel-plugin-transform-async-to-promises/helpers'',
                           io_external (inputOptions c) ''babel-plugin-transform-async-to-promises/other'',
                           io_external (inputOptions c) ''.'')))
     (buildSteps demoHost
        (twoEntryOptions\<lparr>external := Some ''babel-plugin-transform-async-to-promises''\<rparr>)
      :: js_error + unit config list) =
   Inr [(False, True, True), (False, True, True)]"
  by code_simp

lemma helpers_plan_inputs:
  "map_sum id length
     (buildSteps demoHost
        (twoEntryOptions\<lparr>external := Some ''babel-plugin-transform-async-to-promises''\<rparr>)
      :: js_error + unit config list) = Inr 2"
  by code_simp

theorem helpers_bundled_and_dot_external_witness:
  "\<exists>steps :: unit config list.
     buildSteps demoHost
       (twoEntryOptions\<lparr>external := Some ''babel-plugin-transform-async-to-promises''\<rparr>) = Inr steps \<and>
     hd steps \<in> set steps \<and>
     1 < length (entries (twoEntryOptions\<lparr>external := Some ''babel-plugin-transform-async-to-promises''\<rparr>)) \<and>
     io_external (inputOptions (hd steps)) ''babel-plugin-transform-async-to-promises/helpers'' = False \<and>
     io_external (inputOptions (hd steps)) ''.'' = True"
proof -
  let ?opts = "twoEntryOptions\<lparr>external := Some ''babel-plugin-transform-async-to-promises''\<rparr>"
  have "\<exists>steps :: unit config list. buildSteps demoHost ?opts = Inr steps \<and> length steps = 2"
    by (rule map_sum_Inr[OF helpers_plan_inputs])
  then obtain steps :: "unit config list" where
    bl: "buildSteps demoHost ?opts = Inr steps \<and> length steps = 2" ..
  note b = bl[THEN conjunct1] and l = bl[THEN conjunct2]
  have m: "hd steps \<in> set steps" using l by (cases steps) auto
  have n: "1 < length (entries ?opts)"
    by (simp add: twoEntryOptions_def demoOptions_def)
  have r: "io_external (inputOptions (hd steps)) ''babel-plugin-transform-async-to-promises/helpers'' = False \<and>
           (1 < length (entries ?opts) \<longrightarrow> io_external (inputOptions (hd steps)) ''.'' = True)"
    by (rule helpers_bundled_and_dot_external[OF b m])
  show ?thesis
    by (rule exI[of _ steps]) (intro conjI b m n r[THEN conjunct1] r[THEN conjunct2, rule_format, OF n])
qed

section \<open>The classification across the steps\<close>

lemma externalNames_form:
  "\<exists>rest. \<forall>e. externalNames opts e =
      [''dns'', ''fs'', ''path'', ''url''] @ filter (\<lambda>x. x \<noteq> e) (entries opts) @ rest"
proof (cases "external opts")
  case None
  then show ?thesis by (simp add: externalNames_def Let_def)
next
  case (Some ext)
  show ?thesis
  proof (cases "ext = ''none''")
    case True
    then show ?thesis using Some by (intro exI[of _ "[]"]) (simp add: externalNames_def Let_def)
  next
    case False
    then show ?thesis using Some by (cases "ext = []") (simp_all add: externalNames_def Let_def)
  qed
qed

lemma testNames_append: "testNames (A @ B) s = (testNames A s \<or> testNames B s)"
  by (simp add: testNames_def)

lemma testNames_others:
  "\<not> acceptsName e s \<Longrightarrow>
   testNames (filter (\<lambda>x. x \<noteq> e) es) s = (\<exists>x\<in>set es. acceptsName x s)"
  by (auto simp: testNames_def list_ex_iff)

lemma acceptsName_absolute:
  assumes "startsWith e ''/''" and "\<not> startsWith s ''/''"
  shows "\<not> acceptsName e s"
proof -
  obtain e' where e: "e = CHR ''/'' # e'"
    using assms(1) by (cases e) (simp_all add: startsWith_def)
  show ?thesis
  proof (cases s)
    case Nil
    then show ?thesis using e by (simp add: acceptsName_def)
  next
    case (Cons c cs)
    then have "c \<noteq> CHR ''/''" using assms(2) by (simp add: startsWith_def)
    then show ?thesis using e Cons by (simp add: acceptsName_def)
  qed
qed

lemma plain_step_classification:
  assumes a: "sameButMinify o0 o1" and b: "createConfig h o1 e f m = Inr (c :: 'b config)"
    and p: "list_all plainName (externalNames o0 e)"
  shows "io_external (inputOptions c) s = inputExternal o0 (testNames (externalNames o0 e)) s"
proof -
  obtain q where q: "newExternalPredicate h (externalNames o0 e) = Inr q"
    and x: "io_external (inputOptions c) = inputExternal o0 (externalTest (externalNames o0 e) q)"
    using made_fields(3)[OF a b] by blast
  have "q = testNames (externalNames o0 e)"
    using q p by (simp add: newExternalPredicate_def)
  moreover have "externalNames o0 e \<noteq> []"
    using externalNames_form[of o0] by auto
  ultimately show ?thesis
    unfolding x by (simp add: inputExternal_def externalTest_def)
qed

text \<open>
  C3, as stated, fails: in the plan of two entries \<open>/p/src/a.js\<close> and \<open>/p/src/b.js\<close> the
  specifier \<open>/p/src/a.js\<close> is bundled in the step that builds \<open>a.js\<close> and external in the
  step that builds \<open>b.js\<close>, since the external names of a step hold the other entries
  (\<open>options.entries.filter(e => e !== entry)\<close>).
\<close>

theorem external_differs_between_entries:
  "map_sum id (map (\<lambda>c. io_external (inputOptions c) ''/p/src/a.js''))
     (buildSteps demoHost twoEntryOptions :: js_error + unit config list) = Inr [False, True]"
  by code_simp

text \<open>
  C3, amended. In every plan, two steps that build the same entry classify every
  specifier alike, whatever their formats. Two steps of different entries classify a
  specifier alike whenever neither of the two entries, as a name of the pattern, accepts
  it: the names of the two steps differ in these two entries only. That is so for every
  specifier that does not begin with a slash, the entries being absolute paths. (The
  statements about two entries are for names the model interprets itself: names without a
  syntax character of the pattern language other than the dot.)
\<close>

theorem external_same_across_steps:
  assumes "buildSteps h opts = Inr steps" and "c1 \<in> set steps" and "c2 \<in> set steps"
  shows "(io_input (inputOptions c1) = io_input (inputOptions c2) \<longrightarrow>
            io_external (inputOptions c1) = io_external (inputOptions c2)) \<and>
         (list_all plainName (externalNames opts (io_input (inputOptions c1))) \<and>
          list_all plainName (externalNames opts (io_input (inputOptions c2))) \<and>
          \<not> acceptsName (io_input (inputOptions c1)) s \<and>
          \<not> acceptsName (io_input (inputOptions c2)) s \<longrightarrow>
            io_external (inputOptions c1) s = io_external (inputOptions c2) s) \<and>
         (list_all plainName (externalNames opts (io_input (inputOptions c1))) \<and>
          list_all plainName (externalNames opts (io_input (inputOptions c2))) \<and>
          startsWith (io_input (inputOptions c1)) ''/'' \<and>
          startsWith (io_input (inputOptions c2)) ''/'' \<and>
          \<not> startsWith s ''/'' \<longrightarrow>
            io_external (inputOptions c1) s = io_external (inputOptions c2) s)"
proof -
  let ?o = "opts\<lparr>multipleEntries := 1 < length (entries opts)\<rparr>"
  obtain e1 f1 o1 m1 where a1: "sameButMinify ?o o1" and b1: "createConfig h o1 e1 f1 m1 = Inr c1"
    using buildSteps_origin[OF assms(1,2)] by blast
  obtain e2 f2 o2 m2 where a2: "sameButMinify ?o o2" and b2: "createConfig h o2 e2 f2 m2 = Inr c2"
    using buildSteps_origin[OF assms(1,3)] by blast
  have i1: "io_input (inputOptions c1) = e1" by (rule made_fields(1)[OF a1 b1])
  have i2: "io_input (inputOptions c2) = e2" by (rule made_fields(1)[OF a2 b2])
  have same: "io_external (inputOptions c1) = io_external (inputOptions c2)" if "e1 = e2"
    using made_fields(3)[OF a1 b1] made_fields(3)[OF a2 b2] that by auto
  have plain: "io_external (inputOptions c1) t = io_external (inputOptions c2) t"
    if p1: "list_all plainName (externalNames opts e1)"
      and p2: "list_all plainName (externalNames opts e2)"
      and n1: "\<not> acceptsName e1 t" and n2: "\<not> acceptsName e2 t" for t
  proof -
    obtain rest where r: "\<And>e. externalNames ?o e =
        [''dns'', ''fs'', ''path'', ''url''] @ filter (\<lambda>x. x \<noteq> e) (entries ?o) @ rest"
      using externalNames_form[of ?o] by blast
    have x1: "io_external (inputOptions c1) t = inputExternal ?o (testNames (externalNames ?o e1)) t"
      using plain_step_classification[OF a1 b1] p1 by (simp add: externalNames_multipleEntries)
    have x2: "io_external (inputOptions c2) t = inputExternal ?o (testNames (externalNames ?o e2)) t"
      using plain_step_classification[OF a2 b2] p2 by (simp add: externalNames_multipleEntries)
    have "testNames (externalNames ?o e1) t = testNames (externalNames ?o e2) t"
      unfolding r testNames_append testNames_others[OF n1] testNames_others[OF n2] ..
    then show ?thesis unfolding x1 x2 by (simp add: inputExternal_def)
  qed
  have abs: "io_external (inputOptions c1) s = io_external (inputOptions c2) s"
    if "list_all plainName (externalNames opts e1)" and "list_all plainName (externalNames opts e2)"
      and "startsWith e1 ''/''" and "startsWith e2 ''/''" and "\<not> startsWith s ''/''"
    using plain[OF that(1,2)] acceptsName_absolute[OF that(3,5)] acceptsName_absolute[OF that(4,5)]
    by simp
  show ?thesis unfolding i1 i2 using same plain[of s] abs by blast
qed

text \<open>The two steps of the entries \<open>a.js\<close> and \<open>b.js\<close> both classify \<open>react\<close> as
  external.\<close>

lemma two_entry_inputs:
  "map_sum id (map (\<lambda>c. io_input (inputOptions c)))
     (buildSteps demoHost twoEntryOptions :: js_error + unit config list) =
   Inr [''/p/src/a.js'', ''/p/src/b.js'']"
  by code_simp

lemma two_entry_names:
  "list_all plainName (externalNames twoEntryOptions ''/p/src/a.js'') \<and>
   list_all plainName (externalNames twoEntryOptions ''/p/src/b.js'')"
  by code_simp

lemma two_entry_react:
  "map_sum id (map (\<lambda>c. io_external (inputOptions c) ''react''))
     (buildSteps demoHost twoEntryOptions :: js_error + unit config list) = Inr [True, True]"
  by code_simp

theorem external_same_across_steps_witness:
  "\<exists>steps :: unit config list.
     buildSteps demoHost twoEntryOptions = Inr steps \<and>
     steps ! 0 \<in> set steps \<and> steps ! 1 \<in> set steps \<and>
     io_input (inputOptions (steps ! 0)) = ''/p/src/a.js'' \<and>
     io_input (inputOptions (steps ! 1)) = ''/p/src/b.js'' \<and>
     list_all plainName (externalNames twoEntryOptions ''/p/src/a.js'') \<and>
     list_all plainName (externalNames twoEntryOptions ''/p/src/b.js'') \<and>
     startsWith ''/p/src/a.js'' ''/'' \<and> startsWith ''/p/src/b.js'' ''/'' \<and>
     \<not> startsWith ''react'' ''/'' \<and>
     io_external (inputOptions (steps ! 0)) ''react'' = io_external (inputOptions (steps ! 1)) ''react''"
proof -
  have "\<exists>steps :: unit config list. buildSteps demoHost twoEntryOptions = Inr steps \<and>
          map (\<lambda>c. io_input (inputOptions c)) steps = [''/p/src/a.js'', ''/p/src/b.js'']"
    by (rule map_sum_Inr[OF two_entry_inputs])
  then obtain steps :: "unit config list" where
    bi: "buildSteps demoHost twoEntryOptions = Inr steps \<and>
         map (\<lambda>c. io_input (inputOptions c)) steps = [''/p/src/a.js'', ''/p/src/b.js'']" ..
  note b = bi[THEN conjunct1] and i = bi[THEN conjunct2]
  have l: "length steps = 2" using arg_cong[OF i, of length] by simp
  then have m0: "steps ! 0 \<in> set steps" and m1: "steps ! 1 \<in> set steps" by simp_all
  have "map (\<lambda>c. io_input (inputOptions c)) steps ! 0 = ''/p/src/a.js''"
    unfolding i by simp
  then have i0: "io_input (inputOptions (steps ! 0)) = ''/p/src/a.js''" using l by simp
  have "map (\<lambda>c. io_input (inputOptions c)) steps ! 1 = ''/p/src/b.js''"
    unfolding i by simp
  then have i1: "io_input (inputOptions (steps ! 1)) = ''/p/src/b.js''" using l by simp
  note pa = two_entry_names[THEN conjunct1] and pb = two_entry_names[THEN conjunct2]
  have sa: "startsWith ''/p/src/a.js'' ''/''" and sb: "startsWith ''/p/src/b.js'' ''/''"
    and sr: "\<not> startsWith ''react'' ''/''"
    by (simp_all add: startsWith_def)
  note t = external_same_across_steps[OF b m0 m1, of "''react''", THEN conjunct2, THEN conjunct2,
      unfolded i0 i1, rule_format]
  have r: "io_external (inputOptions (steps ! 0)) ''react'' = io_external (inputOptions (steps ! 1)) ''react''"
    by (rule t) (intro conjI pa pb sa sb sr)
  show ?thesis
    by (rule exI[of _ steps]) (intro conjI b m0 m1 i0 i1 pa pb sa sb sr r)
qed

section \<open>Bundling everything\<close>

lemma externalNames_none:
  "external opts = Some ''none'' \<Longrightarrow>
   externalNames opts entry = [''dns'', ''fs'', ''path'', ''url''] @ filter (\<lambda>e. e \<noteq> entry) (entries opts)"
  by (simp add: externalNames_def)

lemma getExternals_none: "getExternals (Some ''none'') dependencies peerDependencies = []"
  by (simp add: getExternals_def)

text \<open>
  C4. With \<open>external\<close> set to \<open>none\<close> the array of \<open>createConfig\<close> is left as it was
  initialised, with the built-in modules (and the other entries) in it, although the
  branch is commented \<open>bundle everything (external=[])\<close>: for the package \<open>demo\<close> the
  names are \<open>dns\<close>, \<open>fs\<close>, \<open>path\<close> and \<open>url\<close>, and both steps classify \<open>fs\<close> as
  external. \<open>getExternals\<close> returns the empty array for the same options.
\<close>

theorem none_keeps_builtins_external:
  "externalNames bundleAllOptions ''/p/src/index.js'' = [''dns'', ''fs'', ''path'', ''url''] \<and>
   map_sum id (map (\<lambda>c. io_external (inputOptions c) ''fs''))
     (buildSteps demoHost bundleAllOptions :: js_error + unit config list) = Inr [True, True] \<and>
   getExternals (external bundleAllOptions) (pkg_dependencies (pkg bundleAllOptions))
     (pkg_peerDependencies (pkg bundleAllOptions)) = []"
  by code_simp

section \<open>The pattern of the external modules\<close>

text \<open>For names without a dot the pattern does what it is meant to: a specifier is
  accepted when it is one of the names or starts with a name followed by a slash.\<close>

lemma matchName_literal:
  "CHR ''.'' \<notin> set n \<Longrightarrow>
   matchName n s = (if startsWith s n then Some (drop (length n) s) else None)"
proof (induction n arbitrary: s)
  case Nil
  then show ?case by (simp add: startsWith_def)
next
  case (Cons p ps)
  then show ?case by (cases s) (auto simp: startsWith_def)
qed

lemma boundary_after_prefix:
  "(startsWith s n \<and> atBoundary (drop (length n) s)) = (s = n \<or> startsWith s (n @ ''/''))"
proof (induction n arbitrary: s)
  case Nil
  then show ?case by (cases s) (auto simp: startsWith_def atBoundary_def)
next
  case (Cons p ps)
  show ?case
  proof (cases s)
    case Nil
    then show ?thesis by (simp add: startsWith_def)
  next
    case (Cons c cs)
    then show ?thesis using Cons.IH[of cs] by (auto simp: startsWith_def)
  qed
qed

lemma testNames_literal:
  assumes "\<forall>n\<in>set names. CHR ''.'' \<notin> set n"
  shows "testNames names s = (\<exists>n\<in>set names. s = n \<or> startsWith s (n @ ''/''))"
proof -
  have "acceptsName n s = (s = n \<or> startsWith s (n @ ''/''))" if "n \<in> set names" for n
    using that assms boundary_after_prefix[of s n] by (auto simp: matchName_literal acceptsName_def)
  then show ?thesis by (auto simp: testNames_def list_ex_iff)
qed

text \<open>With the dependency \<open>react\<close>: \<open>react\<close> and \<open>react/jsx-runtime\<close> are external,
  \<open>lodash\<close>, \<open>reactive\<close> and \<open>react-dom\<close> are not.\<close>

lemma react_external:
  "map_sum id (map (\<lambda>c. map (io_external (inputOptions c))
                           [''react'', ''react/jsx-runtime'', ''lodash'', ''reactive'', ''react-dom'']))
     (buildSteps demoHost demoOptions :: js_error + unit config list) =
   Inr [[True, True, False, False, False], [True, True, False, False, False]]"
  by code_simp

text \<open>
  C5. The names go into the pattern unescaped, so a dot in a name matches any
  character: with the dependency \<open>lodash.debounce\<close> the specifier \<open>lodashXdebounce\<close>,
  which neither equals the name nor lies under it, is classified as external by both
  steps.
\<close>

theorem dot_in_name_matches_any_character:
  "externalNames dottedOptions ''/p/src/index.js'' =
     [''dns'', ''fs'', ''path'', ''url'', ''lodash.debounce''] \<and>
   map_sum id (map (\<lambda>c. map (io_external (inputOptions c))
                           [''lodash.debounce'', ''lodash.debounce/x'', ''lodashXdebounce'']))
     (buildSteps demoHost dottedOptions :: js_error + unit config list) =
   Inr [[True, True, True], [True, True, True]]"
  by code_simp

section \<open>The shebang\<close>

lemma shebangTransform_records:
  assumes "startsWith code ''#!''"
  shows "shebangTransform n code table =
           (''undefined'' @ dropWhile (\<lambda>c. c \<noteq> CHR 0x0A) (drop 2 code),
            tableSet table n (''#!'' @ takeWhile (\<lambda>c. c \<noteq> CHR 0x0A) (drop 2 code)))"
proof -
  have "take 2 code = ''#!''" using assms by (simp add: startsWith_def numeral_2_eq_2)
  then have "code = ''#!'' @ drop 2 code" using append_take_drop_id[of 2 code] by simp
  then have "drop (2 + k) code = drop k (drop 2 code)" for k by simp
  then have "drop (length (''#!'' @ takeWhile (\<lambda>c. c \<noteq> CHR 0x0A) (drop 2 code))) code =
        dropWhile (\<lambda>c. c \<noteq> CHR 0x0A) (drop 2 code)"
    by (simp add: dropWhile_eq_drop)
  then show ?thesis using assms by (simp add: shebangTransform_def Let_def)
qed

lemma shebangTransform_other:
  "\<not> startsWith code ''#!'' \<Longrightarrow> shebangTransform n code table = (code, table)"
  by (simp add: shebangTransform_def)

text \<open>
  C6. For a source that begins with the line \<open>#!/usr/bin/env node\<close> the transform of a
  step records the line in the table under the name of the build, and the banner of the
  step then is that line; but the code it hands on is not the source without the line:
  the text \<open>undefined\<close> stands where the line was.
\<close>

theorem shebang_line_becomes_undefined:
  "map_sum id
     (\<lambda>c. case transform c (''#!/usr/bin/env node'' @ [CHR 0x0A] @ ''run()'') Map.empty of
             (code, table) \<Rightarrow> (code, banner c table))
     (createConfig demoHost demoOptions ''/p/src/index.js'' ''cjs'' True :: js_error + unit config) =
   Inr (''undefined'' @ [CHR 0x0A] @ ''run()'', ShebangLine ''#!/usr/bin/env node'')"
  by code_simp

section \<open>The batch build passes the bundle on\<close>







section \<open>A cache file that cannot be loaded\<close>

text \<open>
  C7, as stated, fails: a missing file does not always leave the step with an empty name
  cache. The \<open>cjs\<close> step of the package \<open>demo\<close>, configured while \<open>/p/mangle.json\<close> held
  \<open>{"vars":{}}\<close>, has that cache and the hooks of the name cache; when the file is
  missing before a later build, the \<open>options\<close> hook leaves the cache loaded before in
  place, and \<open>writeBundle\<close>, run with that cache, writes it back.
\<close>

theorem failed_reload_keeps_loaded_cache:
  "map_sum id
     (\<lambda>c :: unit config.
        (nameCache c, nameCacheHooks c, writeMeta c, unreadable demoHost (nameCachePath c),
         optionsHook demoHost c (nameCache c),
         writeBundleHook c (optionsHook demoHost c (nameCache c))))
     (createConfig cachedHost demoOptions ''/p/src/index.js'' ''cjs'' True) =
   Inr (CacheValue (JObject [(''vars'', JObject [])]), True, True, True,
        CacheValue (JObject [(''vars'', JObject [])]),
        Some (''/p/mangle.json'', JObject [(''vars'', JObject [])]))"
  by code_simp

lemma loadNameCache_unreadable:
  "unreadable h cachePath \<Longrightarrow> loadNameCache h cachePath cache = cache"
  by (auto simp: unreadable_def loadNameCache_def split: option.splits)

lemma nameCacheAfter_unreadable:
  "unreadable h (getNameCachePath h opts) \<Longrightarrow> nameCacheAfter h opts objs = CacheValue JNull"
  by (simp add: nameCacheAfter_def loadNameCache_unreadable)

lemma created_cache:
  assumes "createConfig h opts e fmt m = Inr (c :: 'b config)"
  shows "nameCacheHooks c = (compress opts \<and> truthyCache (nameCache c))"
    and "unreadable h (getNameCachePath h opts) \<longrightarrow>
           nameCache c = CacheValue JNull \<and> nameCacheHooks c = False"
    and "\<forall>h' cache. unreadable h' (nameCachePath c) \<longrightarrow> optionsHook h' c cache = cache"
    and "\<forall>cache. (writeBundleHook c cache \<noteq> None) =
           (compress opts \<and> truthyCache (nameCache c) \<and> writeMeta c \<and> truthyCache cache)"
proof -
  show k: "nameCacheHooks c = (compress opts \<and> truthyCache (nameCache c))"
    by (rule createConfig_fields(6)[OF assms])
  obtain objs where n: "nameCache c = nameCacheAfter h opts objs"
    using createConfig_fields(10)[OF assms] by blast
  show "unreadable h (getNameCachePath h opts) \<longrightarrow>
           nameCache c = CacheValue JNull \<and> nameCacheHooks c = False"
    using k n by (simp add: nameCacheAfter_unreadable)
  show "\<forall>h' cache. unreadable h' (nameCachePath c) \<longrightarrow> optionsHook h' c cache = cache"
    by (simp add: optionsHook_def loadNameCache_unreadable)
  show "\<forall>cache. (writeBundleHook c cache \<noteq> None) =
           (compress opts \<and> truthyCache (nameCache c) \<and> writeMeta c \<and> truthyCache cache)"
    using k by (simp add: writeBundleHook_def)
qed

text \<open>
  C7, amended. A cache file that is missing or cannot be parsed does not make
  \<open>createConfig\<close> fail: when the other calls of \<open>createConfig\<close> return (the parsing of
  the arguments, the compiling of the pattern, \<open>normalizeMinifyOptions\<close>, the plugin
  factories, given \<open>null\<close> as the name cache, and the resolving of the file), the step is
  created. It has no name cache (\<open>null\<close>) and the hooks of the name cache are not
  installed, so a reload changes nothing and nothing is written for it, primary or not.
  For every step that \<open>createConfig\<close> creates: the hooks are installed exactly when the
  minifier runs and the name cache is truthy; when the file cannot be loaded at
  configuration, the cache is \<open>null\<close> and the hooks are not installed; a reload that
  fails before a later build leaves the cache as it was; and \<open>writeBundle\<close> writes the
  cache file exactly when the hooks are installed, the step is the primary one and the
  cache is truthy at that moment.
\<close>

theorem unreadable_cache_file:
  assumes "unreadable h (getNameCachePath h opts)"
    and "moduleAliases h opts = Inr aliases"
    and "parsedGlobals h opts = Inr globals"
    and "parsedDefines h opts = Inr defines"
    and "newExternalPredicate h (externalNames opts e) = Inr p"
    and "normalizeMinifyOptions h (minifyArgument h opts) = Inr objs"
    and "pluginFactories h (pluginCall opts e fmt m aliases defines objs (CacheValue JNull)) = None"
    and "fmt \<notin> set objectPrototypeKeys"
  shows "(\<exists>c :: 'b config.
            createConfig h opts e fmt m = Inr c \<and>
            nameCache c = CacheValue JNull \<and>
            nameCacheHooks c = False \<and>
            (\<forall>cache. writeBundleHook c cache = None) \<and>
            (\<forall>h' cache. optionsHook h' c cache = cache)) \<and>
         (\<forall>h2 o2 e2 f2 m2 (d :: 'b config).
            createConfig h2 o2 e2 f2 m2 = Inr d \<longrightarrow>
              nameCacheHooks d = (compress o2 \<and> truthyCache (nameCache d)) \<and>
              (unreadable h2 (getNameCachePath h2 o2) \<longrightarrow>
                 nameCache d = CacheValue JNull \<and> nameCacheHooks d = False) \<and>
              (\<forall>h' cache. unreadable h' (nameCachePath d) \<longrightarrow> optionsHook h' d cache = cache) \<and>
              (\<forall>cache. (writeBundleHook d cache \<noteq> None) =
                 (compress o2 \<and> truthyCache (nameCache d) \<and> writeMeta d \<and> truthyCache cache)))"
proof -
  have na: "nameCacheAfter h opts objs = CacheValue JNull"
    by (rule nameCacheAfter_unreadable[OF assms(1)])
  have pl: "pluginFactories h (pluginCall opts e fmt m aliases defines objs (nameCacheAfter h opts objs)) = None"
    unfolding na by (rule assms(7))
  obtain c :: "'b config" where c: "createConfig h opts e fmt m = Inr c"
    using createConfig_returns[OF assms(2-6) pl assms(8), where ?'b = 'b] by (elim exE)
  have n: "nameCache c = CacheValue JNull" and k: "nameCacheHooks c = False"
    using created_cache(2)[OF c] assms(1) by simp_all
  have w: "\<forall>cache. writeBundleHook c cache = None"
    using k by (simp add: writeBundleHook_def)
  have o: "\<forall>h' cache. optionsHook h' c cache = cache"
    using k by (simp add: optionsHook_def)
  have first: "\<exists>c :: 'b config.
            createConfig h opts e fmt m = Inr c \<and>
            nameCache c = CacheValue JNull \<and>
            nameCacheHooks c = False \<and>
            (\<forall>cache. writeBundleHook c cache = None) \<and>
            (\<forall>h' cache. optionsHook h' c cache = cache)"
    by (rule exI[of _ c]) (intro conjI c n k w o)
  have second: "\<forall>h2 o2 e2 f2 m2 (d :: 'b config).
            createConfig h2 o2 e2 f2 m2 = Inr d \<longrightarrow>
              nameCacheHooks d = (compress o2 \<and> truthyCache (nameCache d)) \<and>
              (unreadable h2 (getNameCachePath h2 o2) \<longrightarrow>
                 nameCache d = CacheValue JNull \<and> nameCacheHooks d = False) \<and>
              (\<forall>h' cache. unreadable h' (nameCachePath d) \<longrightarrow> optionsHook h' d cache = cache) \<and>
              (\<forall>cache. (writeBundleHook d cache \<noteq> None) =
                 (compress o2 \<and> truthyCache (nameCache d) \<and> writeMeta d \<and> truthyCache cache))"
    by (intro allI impI conjI created_cache)
  show ?thesis by (rule conjI[OF first second])
qed

theorem unreadable_cache_file_witness:
  "unreadable demoHost (getNameCachePath demoHost demoOptions) \<and>
   moduleAliases demoHost demoOptions = Inr [] \<and>
   parsedGlobals demoHost demoOptions = Inr [] \<and>
   parsedDefines demoHost demoOptions = Inr [] \<and>
   (\<exists>p. newExternalPredicate demoHost (externalNames demoOptions ''/p/src/index.js'') = Inr p) \<and>
   normalizeMinifyOptions demoHost (minifyArgument demoHost demoOptions) =
     Inr (minifyArgument demoHost demoOptions) \<and>
   pluginFactories demoHost
     (pluginCall demoOptions ''/p/src/index.js'' ''cjs'' True [] []
        (minifyArgument demoHost demoOptions) (CacheValue JNull)) = None \<and>
   ''cjs'' \<notin> set objectPrototypeKeys \<and>
   compress demoOptions \<and>
   (\<exists>c :: unit config.
      createConfig demoHost demoOptions ''/p/src/index.js'' ''cjs'' True = Inr c \<and>
      writeMeta c \<and>
      nameCache c = CacheValue JNull \<and>
      nameCacheHooks c = False \<and>
      writeBundleHook c (CacheValue (JObject [])) = None)"
proof -
  have u: "unreadable demoHost (getNameCachePath demoHost demoOptions)"
    by (simp add: unreadable_def demoHost_def)
  have k: "''cjs'' \<notin> set objectPrototypeKeys"
    by (simp add: objectPrototypeKeys_def)
  have cp: "compress demoOptions" by (simp add: demoOptions_def)
  note t = unreadable_cache_file[OF u demo_calls(1,2,3) demo_external demo_calls(4,5) k,
      of True, where ?'b = unit, THEN conjunct1]
  then obtain c :: "unit config" where
    c: "createConfig demoHost demoOptions ''/p/src/index.js'' ''cjs'' True = Inr c \<and>
        nameCache c = CacheValue JNull \<and> nameCacheHooks c = False \<and>
        (\<forall>cache. writeBundleHook c cache = None) \<and>
        (\<forall>h' cache. optionsHook h' c cache = cache)" ..
  have wm: "writeMeta c" using createConfig_fields(7)[OF c[THEN conjunct1]] by simp
  have e2: "\<exists>c :: unit config.
      createConfig demoHost demoOptions ''/p/src/index.js'' ''cjs'' True = Inr c \<and>
      writeMeta c \<and>
      nameCache c = CacheValue JNull \<and>
      nameCacheHooks c = False \<and>
      writeBundleHook c (CacheValue (JObject [])) = None"
    by (rule exI[of _ c]) (use c wm in simp)
  have e1: "\<exists>p. newExternalPredicate demoHost (externalNames demoOptions ''/p/src/index.js'') = Inr p"
    by (intro exI) (rule demo_external)
  show ?thesis by (intro conjI u demo_calls(1,2,3,4,5) k cp e1 e2)
qed

section \<open>The last segment of a resolved path\<close>











lemma after_last_slash:
  assumes "CHR ''/'' \<notin> set l" and "Y = [] \<or> last Y = CHR ''/''"
  shows "rev (takeWhile (\<lambda>c. c \<noteq> CHR ''/'') (rev (Y @ l))) = l"
proof -
  have a: "\<And>x. x \<in> set (rev l) \<Longrightarrow> x \<noteq> CHR ''/''"
    using assms(1) by fastforce
  show ?thesis
  proof (cases "Y = []")
    case True
    have "takeWhile (\<lambda>c. c \<noteq> CHR ''/'') (rev l) = rev l"
      by (rule takeWhile_eq_all_conv[THEN iffD2]) (use a in blast)
    then show ?thesis unfolding True by (simp only: append_Nil rev_rev_ident)
  next
    case False
    then obtain Y' where Y: "Y = Y' @ ''/''"
      using assms(2) by (metis append_butlast_last_id)
    have "takeWhile (\<lambda>c. c \<noteq> CHR ''/'') (rev l @ CHR ''/'' # rev Y') =
          rev l @ takeWhile (\<lambda>c. c \<noteq> CHR ''/'') (CHR ''/'' # rev Y')"
      by (rule takeWhile_append2) (use a in blast)
    then have "takeWhile (\<lambda>c. c \<noteq> CHR ''/'') (rev l @ CHR ''/'' # rev Y') = rev l"
      by simp
    then show ?thesis using Y by simp
  qed
qed

lemma last_segment_unique:
  assumes "Y1 @ l1 = Y2 @ l2"
    and "CHR ''/'' \<notin> set l1" and "Y1 = [] \<or> last Y1 = CHR ''/''"
    and "CHR ''/'' \<notin> set l2" and "Y2 = [] \<or> last Y2 = CHR ''/''"
  shows "l1 = l2"
  using after_last_slash[OF assms(2,3)] after_last_slash[OF assms(4,5)] assms(1) by simp




section \<open>The file of a step\<close>












section \<open>The output files of a plan\<close>


text \<open>So it is with the formats \<open>cjs\<close> and \<open>esm\<close> of one entry: every format other than
  \<open>modern\<close>, \<open>es\<close> and \<open>umd\<close> takes the file of \<open>cjs\<close>, \<open>esm\<close> among them, although
  \<open>generateBundle\<close> gives \<open>esm\<close> the extension of \<open>es\<close>.\<close>

lemma esm_shares_the_cjs_file:
  "map_sum id (map (\<lambda>c. (oo_format (outputOptions c), oo_file (outputOptions c))))
     (buildSteps demoHost esmOptions :: js_error + unit config list) =
   Inr [(''cjs'', ''/p/dist/demo.js''), (''esm'', ''/p/dist/demo.js'')]"
  by code_simp






end
